theory Spec2Isabelle
  imports Main "HOL-Library.Sublist" "HOL-Library.Word"
begin

text \<open>
  The control-channel client of \<open>libwifi_system/wifi.cpp\<close>: starting the daemon, connecting,
  sending a command, waiting for an event and normalizing the event text. The process-wide
  variables are a record that each function takes and hands back; what the supervisor,
  the transport and the file system answer is an argument of the function that asks.
\<close>

section \<open>C strings in a caller-owned buffer\<close>

text \<open>
  A buffer is the list of its bytes; its capacity is the length of the list. A read or a
  write outside the capacity is the fault \<open>OutOfBounds\<close>, so that a scan that would leave
  the buffer is a branch of the model and not an unspecified value.
\<close>

datatype fault = OutOfBounds

definition NUL :: char where
  "NUL = CHR 0x00"

definition IFNAME :: string where
  "IFNAME = ''IFNAME=''"

definition IFNAMELEN :: nat where
  "IFNAMELEN = length IFNAME"

definition WPA_EVENT_IGNORE :: string where
  "WPA_EVENT_IGNORE = ''CTRL-EVENT-IGNORE ''"

definition WPA_EVENT_TERMINATING :: string where
  "WPA_EVENT_TERMINATING = ''CTRL-EVENT-TERMINATING ''"

text \<open>
  \<open>strncmp_eq buf i lit\<close> is \<open>strncmp(buf + i, lit, strlen(lit)) == 0\<close>: the bytes are
  compared one by one and the comparison stops at the first difference, or at a
  terminator common to both.
\<close>

fun strncmp_eq :: "char list \<Rightarrow> nat \<Rightarrow> string \<Rightarrow> fault + bool" where
  "strncmp_eq buf i [] = Inr True"
| "strncmp_eq buf i (c # cs) =
     (if length buf \<le> i then Inl OutOfBounds
      else if buf ! i \<noteq> c then Inr False
      else if c = NUL then Inr True
      else strncmp_eq buf (Suc i) cs)"

text \<open>
  \<open>strchr buf i c\<close> is \<open>strchr(buf + i, c)\<close>: the index of the first byte equal to
  \<open>c\<close> at or after \<open>i\<close> and before the terminator, \<open>None\<close> for the null pointer.
\<close>

function strchr :: "char list \<Rightarrow> nat \<Rightarrow> char \<Rightarrow> fault + nat option" where
  "strchr buf i c =
     (if length buf \<le> i then Inl OutOfBounds
      else if buf ! i = c then Inr (Some i)
      else if buf ! i = NUL then Inr None
      else strchr buf (Suc i) c)"
  by pat_completeness auto
termination
  by (relation "measure (\<lambda>(buf, i, c). length buf - i)") auto

declare strchr.simps [simp del]

text \<open>\<open>memmove buf dst src n\<close> copies \<open>n\<close> bytes inside the buffer; the regions may overlap.\<close>

definition memmove :: "char list \<Rightarrow> nat \<Rightarrow> nat \<Rightarrow> nat \<Rightarrow> fault + char list" where
  "memmove buf dst src n =
     (if src + n \<le> length buf \<and> dst + n \<le> length buf
      then Inr (take dst buf @ take n (drop src buf) @ drop (dst + n) buf)
      else Inl OutOfBounds)"

text \<open>
  \<open>snprintf buf s\<close> is \<open>snprintf(buf, buflen, ...)\<close> for the formatted text \<open>s\<close>, with
  \<open>buflen\<close> the capacity of \<open>buf\<close>: at most \<open>buflen - 1\<close> bytes of \<open>s\<close> and a terminator
  are stored, nothing when \<open>buflen\<close> is 0, and the value returned is the length of \<open>s\<close>
  whether it was truncated or not.
\<close>

definition snprintf :: "char list \<Rightarrow> string \<Rightarrow> char list \<times> nat" where
  "snprintf buf s =
     (if length buf = 0 then (buf, length s)
      else let k = min (length s) (length buf - 1)
           in (take k s @ NUL # drop (Suc k) buf, length s))"

text \<open>
  Subtraction of \<open>size_t\<close> values wraps around (64-bit \<open>size_t\<close>); it does so only when
  the subtrahend exceeds the minuend.
\<close>

definition size_sub :: "nat \<Rightarrow> nat \<Rightarrow> nat" where
  "size_sub a b = (if b \<le> a then a - b else a + 2 ^ 64 - b)"

section \<open>The event message normalizer\<close>

text \<open>
  The rewrite phase of \<open>wifi_wait_on_socket\<close>, from the test for the \<open>IFNAME=\<close> prefix to
  \<open>return nread\<close>. It runs on the buffer after \<open>buf[nread] = '\0'\<close>. The prefix test
  compares \<open>IFNAMELEN\<close> bytes, as many as \<open>IFNAME\<close> has; \<open>match\<close> and \<open>match2\<close> are indices
  into the buffer.
\<close>

definition normalize_event :: "char list \<Rightarrow> nat \<Rightarrow> fault + (char list \<times> nat)" where
  "normalize_event buf nread =
     (case strncmp_eq buf 0 IFNAME of
        Inl e \<Rightarrow> Inl e
      | Inr True \<Rightarrow>
          (case strchr buf 0 (CHR '' '') of
             Inl e \<Rightarrow> Inl e
           | Inr None \<Rightarrow> Inr (snprintf buf WPA_EVENT_IGNORE)
           | Inr (Some match) \<Rightarrow>
               if length buf \<le> match + 1 then Inl OutOfBounds
               else if buf ! (match + 1) = CHR ''<'' then
                 (case strchr buf (match + 2) (CHR ''>'') of
                    Inl e \<Rightarrow> Inl e
                  | Inr None \<Rightarrow> Inr (buf, nread)
                  | Inr (Some match2) \<Rightarrow>
                      (let nread' = size_sub nread (match2 - match)
                       in case memmove buf (match + 1) (match2 + 1)
                                 (size_sub nread' match + 1) of
                            Inl e \<Rightarrow> Inl e
                          | Inr buf' \<Rightarrow> Inr (buf', nread')))
               else Inr (buf, nread))
      | Inr False \<Rightarrow>
          if length buf = 0 then Inl OutOfBounds
          else if buf ! 0 = CHR ''<'' then
            (case strchr buf 0 (CHR ''>'') of
               Inl e \<Rightarrow> Inl e
             | Inr None \<Rightarrow> Inr (buf, nread)
             | Inr (Some match) \<Rightarrow>
                 (let nread' = size_sub nread (match + 1)
                  in case memmove buf 0 (match + 1) (nread' + 1) of
                       Inl e \<Rightarrow> Inl e
                     | Inr buf' \<Rightarrow> Inr (buf', nread')))
          else Inr (buf, nread))"

section \<open>Process-wide state and calls on the outside world\<close>

text \<open>
  The calls that act on the outside world, in the order they are made. A transport
  handle (\<open>struct wpa_ctrl*\<close>) is a number, the null pointer is \<open>None\<close>.
\<close>

datatype action =
    EnsureConfigFile string
  | EnsureEntropyFile
  | WpaCtrlCleanup
  | PropertySet string string
  | SchedYield
  | Usleep nat
  | WpaCtrlOpen string "nat option"
  | WpaCtrlClose nat
  | WpaCtrlAttach nat
  | Socketpair "(int \<times> int) option"
  | WpaCtrlRequest nat string
  | WriteFd int string
  | CloseFd int

text \<open>
  The globals \<open>ctrl_conn\<close>, \<open>monitor_conn\<close>, \<open>exit_sockets\<close> and \<open>primary_iface\<close> (the
  text it holds, without its terminator), with the bytes written into \<open>exit_sockets[0]\<close>
  that nobody has read from \<open>exit_sockets[1]\<close> yet, and the log of calls.
\<close>

record wifi_state =
  ctrl_conn :: "nat option"
  monitor_conn :: "nat option"
  exit_sockets :: "int \<times> int"
  primary_iface :: string
  exit_unread :: string
  calls :: "action list"

definition SUPPLICANT_SERVICE_NAME :: string where
  "SUPPLICANT_SERVICE_NAME = ''wpa_supplicant''"

definition SUPP_CONFIG_FILE :: string where
  "SUPP_CONFIG_FILE = ''/data/misc/wifi/wpa_supplicant.conf''"

definition P2P_CONFIG_FILE :: string where
  "P2P_CONFIG_FILE = ''/data/misc/wifi/p2p_supplicant.conf''"

definition WIFI_TEST_INTERFACE :: string where
  "WIFI_TEST_INTERFACE = ''sta''"

text \<open>
  \<open>wifi_close_sockets\<close>. \<open>wifi_close_supplicant_connection\<close> calls it and then only waits,
  for at most 5 s, until the daemon is reported stopped.
\<close>

definition wifi_close_sockets :: "wifi_state \<Rightarrow> wifi_state" where
  "wifi_close_sockets st =
     st\<lparr>ctrl_conn := None, monitor_conn := None,
        exit_sockets := (if 0 \<le> fst (exit_sockets st) then - 1 else fst (exit_sockets st),
                         if 0 \<le> snd (exit_sockets st) then - 1 else snd (exit_sockets st)),
        exit_unread := (if 0 \<le> fst (exit_sockets st) \<or> 0 \<le> snd (exit_sockets st)
                        then [] else exit_unread st),
        calls := calls st
          @ (case ctrl_conn st of None \<Rightarrow> [] | Some c \<Rightarrow> [WpaCtrlClose c])
          @ (case monitor_conn st of None \<Rightarrow> [] | Some m \<Rightarrow> [WpaCtrlClose m])
          @ (if 0 \<le> fst (exit_sockets st) then [CloseFd (fst (exit_sockets st))] else [])
          @ (if 0 \<le> snd (exit_sockets st) then [CloseFd (snd (exit_sockets st))] else [])\<rparr>"

section \<open>Starting the daemon\<close>

text \<open>
  What \<open>wifi_start_supplicant\<close> observes: the status property at entry (empty when
  unset), whether \<open>ensure_config_file_exists(SUPP_CONFIG_FILE)\<close> returned 0 (the results for
  the p2p file and the entropy file are ignored by the code), the property
  \<open>wifi.interface\<close> (empty when unset), and the status property over time. Time 0 is the
  moment before \<open>ctl.start\<close> is issued, time \<open>k + 1\<close> is iteration \<open>k\<close> of the polling loop.
\<close>

record start_env =
  init_status :: string
  config_ok :: bool
  wifi_interface :: string
  prop_find :: "nat \<Rightarrow> bool"
  prop_serial :: "nat \<Rightarrow> 32 word"
  prop_value :: "nat \<Rightarrow> string"

text \<open>
  The loop \<open>while (count-- > 0)\<close>: \<open>pi\<close> tells whether the property reference is non-null,
  \<open>t\<close> is the time of this iteration, the last argument is \<open>count\<close>.
\<close>

fun start_poll ::
  "start_env \<Rightarrow> 32 word \<Rightarrow> bool \<Rightarrow> nat \<Rightarrow> wifi_state \<Rightarrow> nat \<Rightarrow> int \<times> wifi_state" where
  "start_poll env serial pi t st 0 = (- 1, st)"
| "start_poll env serial pi t st (Suc count) =
     (let pi' = (pi \<or> prop_find env t) in
      if pi' \<and> prop_serial env t \<noteq> serial \<and> prop_value env t = ''running'' then (0, st)
      else if pi' \<and> prop_serial env t \<noteq> serial \<and> prop_value env t = ''stopped'' then (- 1, st)
      else start_poll env serial pi' (Suc t) (st\<lparr>calls := calls st @ [Usleep 100000]\<rparr>) count)"

definition wifi_start_supplicant :: "wifi_state \<Rightarrow> start_env \<Rightarrow> int \<times> wifi_state" where
  "wifi_start_supplicant st env =
     (if init_status env = ''running'' then (0, st)
      else if \<not> config_ok env
      then (- 1, st\<lparr>calls := calls st @ [EnsureConfigFile SUPP_CONFIG_FILE]\<rparr>)
      else
        let pi = prop_find env 0;
            serial = (if pi then prop_serial env 0 else 0);
            st' = st\<lparr>exit_sockets := (- 1, - 1),
                     primary_iface := (if wifi_interface env = [] then WIFI_TEST_INTERFACE
                                       else wifi_interface env),
                     calls := calls st @
                       [EnsureConfigFile SUPP_CONFIG_FILE, EnsureConfigFile P2P_CONFIG_FILE,
                        EnsureEntropyFile, WpaCtrlCleanup,
                        PropertySet ''ctl.start'' SUPPLICANT_SERVICE_NAME, SchedYield]\<rparr>
        in start_poll env serial pi 1 st' 200)"

section \<open>Connecting\<close>

text \<open>
  What \<open>wifi_connect_on_socket_path\<close> observes: the status property (empty when unset),
  the results of the two \<open>wpa_ctrl_open\<close> calls, of \<open>wpa_ctrl_attach\<close> and of
  \<open>socketpair\<close> (\<open>None\<close> for -1, otherwise the two descriptors).
\<close>

record connect_env =
  conn_status :: string
  open_ctrl :: "nat option"
  open_monitor :: "nat option"
  attach_result :: int
  socketpair_result :: "(int \<times> int) option"

definition wifi_connect_on_socket_path ::
  "wifi_state \<Rightarrow> connect_env \<Rightarrow> string \<Rightarrow> int \<times> wifi_state" where
  "wifi_connect_on_socket_path st env path =
     (if conn_status env \<noteq> ''running'' then (- 1, st)
      else case open_ctrl env of
        None \<Rightarrow> (- 1, st\<lparr>ctrl_conn := None, calls := calls st @ [WpaCtrlOpen path None]\<rparr>)
      | Some c \<Rightarrow>
         (case open_monitor env of
            None \<Rightarrow>
              (- 1, st\<lparr>ctrl_conn := None, monitor_conn := None,
                       calls := calls st @
                         [WpaCtrlOpen path (Some c), WpaCtrlOpen path None, WpaCtrlClose c]\<rparr>)
          | Some m \<Rightarrow>
              if attach_result env \<noteq> 0
              then (- 1, st\<lparr>ctrl_conn := None, monitor_conn := None,
                            calls := calls st @
                              [WpaCtrlOpen path (Some c), WpaCtrlOpen path (Some m),
                               WpaCtrlAttach m, WpaCtrlClose m, WpaCtrlClose c]\<rparr>)
              else
                (case socketpair_result env of
                   None \<Rightarrow>
                     (- 1, st\<lparr>ctrl_conn := None, monitor_conn := None,
                              calls := calls st @
                                [WpaCtrlOpen path (Some c), WpaCtrlOpen path (Some m),
                                 WpaCtrlAttach m, Socketpair None,
                                 WpaCtrlClose m, WpaCtrlClose c]\<rparr>)
                 | Some fds \<Rightarrow>
                     (0, st\<lparr>ctrl_conn := Some c, monitor_conn := Some m,
                            exit_sockets := fds, exit_unread := [],
                            calls := calls st @
                              [WpaCtrlOpen path (Some c), WpaCtrlOpen path (Some m),
                               WpaCtrlAttach m, Socketpair (Some fds)]\<rparr>))))"

text \<open>The handles a list of calls opened, and those it closed, in order.\<close>

fun opened :: "action list \<Rightarrow> nat list" where
  "opened [] = []"
| "opened (WpaCtrlOpen p (Some h) # as) = h # opened as"
| "opened (a # as) = opened as"

fun closed :: "action list \<Rightarrow> nat list" where
  "closed [] = []"
| "closed (WpaCtrlClose h # as) = h # closed as"
| "closed (a # as) = closed as"

fun socketpairs :: "action list \<Rightarrow> (int \<times> int) list" where
  "socketpairs [] = []"
| "socketpairs (Socketpair (Some fds) # as) = fds # socketpairs as"
| "socketpairs (a # as) = socketpairs as"

definition new_calls :: "wifi_state \<Rightarrow> wifi_state \<Rightarrow> action list" where
  "new_calls st st' = drop (length (calls st)) (calls st')"

section \<open>Sending a command\<close>

text \<open>
  \<open>wpa_ctrl_request\<close> is the transport: from the handle, the command, the reply buffer
  and \<open>*reply_len\<close> it gives its return value, the reply buffer and \<open>*reply_len\<close> as it
  leaves them. The command is a C string, stored with its terminator. The write to
  \<open>exit_sockets[0]\<close>, retried while it is interrupted, is one write; it queues its byte when
  the descriptor is not negative.
\<close>

type_synonym transport_request =
  "nat \<Rightarrow> string \<Rightarrow> char list \<Rightarrow> nat \<Rightarrow> int \<times> char list \<times> nat"

definition wifi_send_command ::
  "wifi_state \<Rightarrow> transport_request \<Rightarrow> string \<Rightarrow> char list \<Rightarrow> nat
   \<Rightarrow> fault + (int \<times> wifi_state \<times> char list \<times> nat)" where
  "wifi_send_command st wpa_ctrl_request cmd reply reply_len =
     (case ctrl_conn st of
        None \<Rightarrow> Inr (- 1, st, reply, reply_len)
      | Some c \<Rightarrow>
         (case wpa_ctrl_request c cmd reply reply_len of
            (ret, reply', reply_len') \<Rightarrow>
              let st' = st\<lparr>calls := calls st @ [WpaCtrlRequest c cmd]\<rparr> in
              if ret = - 2 then
                Inr (- 2,
                     st'\<lparr>exit_unread := (if 0 \<le> fst (exit_sockets st)
                                           then exit_unread st @ ''T'' else exit_unread st),
                          calls := calls st' @ [WriteFd (fst (exit_sockets st)) ''T'']\<rparr>,
                     reply', reply_len')
              else if ret < 0 then Inr (- 1, st', reply', reply_len')
              else
                (case strncmp_eq reply' 0 ''FAIL'' of
                   Inl e \<Rightarrow> Inl e
                 | Inr True \<Rightarrow> Inr (- 1, st', reply', reply_len')
                 | Inr False \<Rightarrow>
                     (case strncmp_eq (cmd @ [NUL]) 0 ''PING'' of
                        Inl e \<Rightarrow> Inl e
                      | Inr True \<Rightarrow>
                          if length reply' \<le> reply_len' then Inl OutOfBounds
                          else Inr (0, st', reply'[reply_len' := NUL], reply_len')
                      | Inr False \<Rightarrow> Inr (0, st', reply', reply_len')))))"

section \<open>Waiting for an event\<close>

text \<open>
  One return of \<open>poll\<close> on the two descriptors: its value, and whether \<open>POLLIN\<close> is set
  in \<open>rfds[0].revents\<close> (the event connection) and in \<open>rfds[1].revents\<close> (the exit socket).
\<close>

record poll_out =
  poll_res :: int
  revents0_in :: bool
  revents1_in :: bool

text \<open>
  What the wait observes: round \<open>k\<close> of \<open>poll\<close>, the status property read after a
  timeout in round \<open>k\<close> (empty when unset), and \<open>wpa_ctrl_recv\<close>, which from the buffer and
  \<open>*reply_len\<close> gives its return value, the buffer and \<open>*reply_len\<close> as it leaves them.
\<close>

record recv_env =
  poll :: "nat \<Rightarrow> poll_out"
  supp_status :: "nat \<Rightarrow> string"
  wpa_ctrl_recv :: "char list \<Rightarrow> nat \<Rightarrow> int \<times> char list \<times> nat"

text \<open>\<open>wifi_supplicant_connection_active\<close>, from the status property as read.\<close>

definition wifi_supplicant_connection_active :: "string \<Rightarrow> int" where
  "wifi_supplicant_connection_active status = (if status = ''stopped'' then - 1 else 0)"

text \<open>
  The loop \<open>do ... while (res == 0)\<close> of \<open>wifi_ctrl_recv\<close>, which need not end: \<open>Inl r\<close> when
  the function returns \<open>r\<close> from inside the loop, \<open>Inr k\<close> when the loop is left in round
  \<open>k\<close> because a descriptor is ready.
\<close>

partial_function (option) poll_rounds :: "recv_env \<Rightarrow> nat \<Rightarrow> (int + nat) option" where
  "poll_rounds env k =
     (if poll_res (poll env k) < 0 then Some (Inl (poll_res (poll env k)))
      else if poll_res (poll env k) = 0 then
        (if wifi_supplicant_connection_active (supp_status env k) < 0 then Some (Inl (- 2))
         else poll_rounds env (Suc k))
      else Some (Inr k))"

declare poll_rounds.simps [code]

definition wifi_ctrl_recv ::
  "recv_env \<Rightarrow> char list \<Rightarrow> nat \<Rightarrow> (int \<times> char list \<times> nat) option" where
  "wifi_ctrl_recv env reply reply_len =
     (case poll_rounds env 0 of
        None \<Rightarrow> None
      | Some (Inl r) \<Rightarrow> Some (r, reply, reply_len)
      | Some (Inr k) \<Rightarrow>
          if revents0_in (poll env k) then Some (wpa_ctrl_recv env reply reply_len)
          else Some (- 2, reply, reply_len))"

text \<open>
  \<open>wifi_wait_on_socket\<close>; \<open>buflen\<close> is the capacity of \<open>buf\<close>. The value returned is never
  negative and is given as a natural number. The state is handed back as it was found:
  the function reads the globals and writes none of them.
\<close>

definition wifi_wait_on_socket ::
  "wifi_state \<Rightarrow> recv_env \<Rightarrow> char list \<Rightarrow> (wifi_state \<times> (fault + (char list \<times> nat))) option" where
  "wifi_wait_on_socket st env buf =
     (if monitor_conn st = None
      then Some (st, Inr (snprintf buf
             (''IFNAME='' @ primary_iface st @ '' '' @ WPA_EVENT_TERMINATING
              @ '' - connection closed'')))
      else case wifi_ctrl_recv env buf (size_sub (length buf) 1) of
        None \<Rightarrow> None
      | Some (result, buf', nread) \<Rightarrow>
          if result = - 2
          then Some (st, Inr (snprintf buf'
                 (''IFNAME='' @ primary_iface st @ '' '' @ WPA_EVENT_TERMINATING
                  @ '' - connection closed'')))
          else if result < 0
          then Some (st, Inr (snprintf buf'
                 (''IFNAME='' @ primary_iface st @ '' '' @ WPA_EVENT_TERMINATING
                  @ '' - recv error'')))
          else if length buf' \<le> nread then Some (st, Inl OutOfBounds)
          else if result = 0 \<and> nread = 0
          then Some (st, Inr (snprintf (buf'[nread := NUL])
                 (''IFNAME='' @ primary_iface st @ '' '' @ WPA_EVENT_TERMINATING
                  @ '' - signal 0 received'')))
          else Some (st, normalize_event (buf'[nread := NUL]) nread))"

section \<open>Notions the properties are stated with, and example inputs\<close>

text \<open>Normalization applied to its own output.\<close>

definition normalize_twice :: "char list \<Rightarrow> nat \<Rightarrow> fault + (char list \<times> nat)" where
  "normalize_twice buf nread =
     (case normalize_event buf nread of
        Inl e \<Rightarrow> Inl e
      | Inr (buf', nread') \<Rightarrow> normalize_event buf' nread')"

text \<open>A connected channel on interface \<open>wlan0\<close>.\<close>

definition connected_state :: wifi_state where
  "connected_state =
     \<lparr>ctrl_conn = Some 1, monitor_conn = Some 2, exit_sockets = (3, 4),
      primary_iface = ''wlan0'', exit_unread = [], calls = []\<rparr>"

text \<open>
  An event connection that is ready at once and delivers \<open>msg\<close>, cut to the room the
  caller offers, as \<open>recv\<close> on a datagram socket does.
\<close>

definition event_env :: "string \<Rightarrow> recv_env" where
  "event_env msg =
     \<lparr>poll = (\<lambda>k. \<lparr>poll_res = 1, revents0_in = True, revents1_in = False\<rparr>),
      supp_status = (\<lambda>k. ''running''),
      wpa_ctrl_recv = (\<lambda>buf n. (0, take n msg @ drop (length (take n msg)) buf,
                                  length (take n msg)))\<rparr>"

text \<open>
  Iteration \<open>j\<close> of a polling loop entered at time \<open>t\<close> with reference flag \<open>pi\<close> holds
  the property reference, reads a serial other than the recorded one, and reads status \<open>v\<close>.
\<close>

definition poll_sees :: "start_env \<Rightarrow> 32 word \<Rightarrow> bool \<Rightarrow> nat \<Rightarrow> nat \<Rightarrow> string \<Rightarrow> bool" where
  "poll_sees env serial pi t j v =
     ((pi \<or> list_ex (prop_find env) [t ..< t + j + 1])
      \<and> prop_serial env (t + j) \<noteq> serial \<and> prop_value env (t + j) = v)"

text \<open>The serial recorded before \<open>ctl.start\<close>: 0 when the property does not exist yet.\<close>

definition recorded_serial :: "start_env \<Rightarrow> 32 word" where
  "recorded_serial env = (if prop_find env 0 then prop_serial env 0 else 0)"

text \<open>
  Poll \<open>k\<close> of \<open>wifi_start_supplicant\<close> (counted from 0) reads an advanced serial and
  status \<open>v\<close>; a terminal poll reads \<open>running\<close> or \<open>stopped\<close> so.
\<close>

definition seen_status :: "start_env \<Rightarrow> nat \<Rightarrow> string \<Rightarrow> bool" where
  "seen_status env k v = poll_sees env (recorded_serial env) (prop_find env 0) 1 k v"

definition terminal_poll :: "start_env \<Rightarrow> nat \<Rightarrow> bool" where
  "terminal_poll env k = (seen_status env k ''running'' \<or> seen_status env k ''stopped'')"

text \<open>The state once \<open>ctl.start\<close> has been issued and \<open>k\<close> polls have each slept 100 ms.\<close>

definition start_issued :: "wifi_state \<Rightarrow> start_env \<Rightarrow> nat \<Rightarrow> wifi_state" where
  "start_issued st env k =
     st\<lparr>exit_sockets := (- 1, - 1),
        primary_iface := (if wifi_interface env = [] then WIFI_TEST_INTERFACE
                          else wifi_interface env),
        calls := calls st @
          [EnsureConfigFile SUPP_CONFIG_FILE, EnsureConfigFile P2P_CONFIG_FILE,
           EnsureEntropyFile, WpaCtrlCleanup,
           PropertySet ''ctl.start'' SUPPLICANT_SERVICE_NAME, SchedYield]
          @ replicate k (Usleep 100000)\<rparr>"

text \<open>A channel that was never connected.\<close>

definition idle_state :: wifi_state where
  "idle_state =
     \<lparr>ctrl_conn = None, monitor_conn = None, exit_sockets = (- 1, - 1),
      primary_iface = ''wlan0'', exit_unread = [], calls = []\<rparr>"

text \<open>
  A supervisor whose status property exists with serial 5 and value \<open>stopped\<close>, and
  changes at time \<open>t0\<close> to serial 6 and value \<open>v\<close>.
\<close>

definition supervisor_env :: "bool \<Rightarrow> nat \<Rightarrow> string \<Rightarrow> start_env" where
  "supervisor_env cfg t0 v =
     \<lparr>init_status = ''stopped'', config_ok = cfg, wifi_interface = ''wlan0'',
      prop_find = (\<lambda>t. True),
      prop_serial = (\<lambda>t. if t < t0 then 5 else 6),
      prop_value = (\<lambda>t. if t < t0 then ''stopped'' else v)\<rparr>"

text \<open>
  The format the synthetic events share, in the spec's words:
  \<open>IFNAME={interface} {TERMINATING-MARKER} - {reason}\<close>.
\<close>

definition terminal_event :: "string \<Rightarrow> string \<Rightarrow> string" where
  "terminal_event iface reason =
     ''IFNAME='' @ iface @ '' '' @ WPA_EVENT_TERMINATING @ '' - '' @ reason"

text \<open>A transport whose request times out, and one that answers \<open>answer\<close>.\<close>

definition timeout_request :: transport_request where
  "timeout_request c cmd reply reply_len = (- 2, reply, reply_len)"

definition answering_request :: "string \<Rightarrow> transport_request" where
  "answering_request answer c cmd reply reply_len =
     (0, take reply_len answer @ drop (length (take reply_len answer)) reply,
      length (take reply_len answer))"

definition failing_request :: transport_request where
  "failing_request c cmd reply reply_len = (- 1, reply, reply_len)"

text \<open>The connected channel after a command has timed out: one byte waits on the exit socket.\<close>

definition signalled_state :: wifi_state where
  "signalled_state =
     connected_state\<lparr>exit_unread := ''T'',
                      calls := [WpaCtrlRequest 1 ''SCAN'', WriteFd 3 ''T'']\<rparr>"

text \<open>
  A wait whose first \<open>k\<close> rounds time out with the daemon reported \<open>status\<close>, and whose
  round \<open>k\<close> finds only the exit socket readable.
\<close>

definition cancel_env :: "nat \<Rightarrow> string \<Rightarrow> recv_env" where
  "cancel_env k status =
     \<lparr>poll = (\<lambda>j. if j < k then \<lparr>poll_res = 0, revents0_in = False, revents1_in = False\<rparr>
                    else \<lparr>poll_res = 1, revents0_in = False, revents1_in = True\<rparr>),
      supp_status = (\<lambda>j. status),
      wpa_ctrl_recv = (\<lambda>buf n. (0, buf, n))\<rparr>"

text \<open>A wait whose \<open>poll\<close> or receive fails with \<open>r\<close>.\<close>

definition recv_result_env :: "bool \<Rightarrow> int \<Rightarrow> recv_env" where
  "recv_result_env ready r =
     \<lparr>poll = (\<lambda>j. \<lparr>poll_res = (if ready then 1 else r), revents0_in = ready,
                    revents1_in = False\<rparr>),
      supp_status = (\<lambda>j. ''running''),
      wpa_ctrl_recv = (\<lambda>buf n. (r, buf, if r = 0 then 0 else n))\<rparr>"

text \<open>What \<open>wifi_connect_on_socket_path\<close> may meet, by the step that fails.\<close>

definition connect_example :: "string \<Rightarrow> nat option \<Rightarrow> nat option \<Rightarrow> int
    \<Rightarrow> (int \<times> int) option \<Rightarrow> connect_env" where
  "connect_example status c m a s =
     \<lparr>conn_status = status, open_ctrl = c, open_monitor = m, attach_result = a,
      socketpair_result = s\<rparr>"

section \<open>Scanning a terminated buffer\<close>

lemma strncmp_eq_at:
  "NUL \<notin> set lit \<Longrightarrow>
   strncmp_eq (pre @ ys @ NUL # tail) (length pre) lit = Inr (prefix lit ys)"
proof (induction lit arbitrary: pre ys)
  case Nil
  then show ?case by simp
next
  case (Cons c cs)
  show ?case
  proof (cases ys)
    case Nil
    with Cons.prems show ?thesis by auto
  next
    case (Cons y ys')
    have "strncmp_eq ((pre @ [y]) @ ys' @ NUL # tail) (length (pre @ [y])) cs = Inr (prefix cs ys')"
      using Cons.IH Cons.prems by (metis list.set_intros(2))
    with Cons Cons.prems show ?thesis by auto
  qed
qed

lemma strchr_found:
  "c \<notin> set ys \<Longrightarrow> NUL \<notin> set ys \<Longrightarrow>
   strchr (pre @ ys @ c # xs) (length pre) c = Inr (Some (length pre + length ys))"
proof (induction ys arbitrary: pre)
  case Nil
  then show ?case by (simp add: strchr.simps)
next
  case (Cons y ys)
  have "strchr ((pre @ [y]) @ ys @ c # xs) (length (pre @ [y])) c
        = Inr (Some (length (pre @ [y]) + length ys))"
    using Cons.IH Cons.prems by (metis list.set_intros(2))
  with Cons.prems show ?case
    by (subst strchr.simps) (auto simp: nth_append)
qed

lemma strchr_none:
  "c \<notin> set ys \<Longrightarrow> c \<noteq> NUL \<Longrightarrow>
   strchr (pre @ ys @ NUL # xs) (length pre) c = Inr None"
proof (induction ys arbitrary: pre)
  case Nil
  then show ?case by (simp add: strchr.simps)
next
  case (Cons y ys)
  have "strchr ((pre @ [y]) @ ys @ NUL # xs) (length (pre @ [y])) c = Inr None"
    using Cons.IH Cons.prems by (metis list.set_intros(2))
  with Cons.prems show ?case
    by (subst strchr.simps) (auto simp: nth_append)
qed

lemma memmove_shift:
  "memmove (a @ b @ c @ d) (length a) (length a + length b) (length c)
   = Inr (a @ c @ drop (length c) (b @ c) @ d)"
  by (simp add: memmove_def)






lemma snd_snprintf: "snd (snprintf buf s) = length s"
  by (simp add: snprintf_def Let_def)

lemma snprintf_pair: "snprintf buf s = (fst (snprintf buf s), length s)"
  by (simp add: snprintf_def Let_def)

lemma IFNAME_chars: "CHR '' '' \<notin> set IFNAME" "NUL \<notin> set IFNAME" "length IFNAME = 7"
  by (simp_all add: IFNAME_def NUL_def)

lemma strncmp_eq_IFNAME_prefix:
  "strncmp_eq (IFNAME @ ys @ NUL # tail) 0 IFNAME = Inr True"
  using strncmp_eq_at [of IFNAME "[]" "IFNAME @ ys" tail] by (simp add: IFNAME_chars)

lemma strncmp_eq_IFNAME_iff:
  "strncmp_eq (ys @ NUL # tail) 0 IFNAME = Inr (prefix IFNAME ys)"
  using strncmp_eq_at [of IFNAME "[]" ys tail] by (simp add: IFNAME_chars)

section \<open>Properties of the normalizer\<close>

text \<open>
  A tagged message behind an interface prefix loses its tag when at least one byte \<open>x\<close> of
  the buffer follows the terminator; the bytes after the new terminator are what the
  move left behind.
\<close>

lemma normalize_ifname_tag:
  assumes "CHR '' '' \<notin> set i" "NUL \<notin> set i" "CHR ''>'' \<notin> set n" "NUL \<notin> set n"
  shows "normalize_event (IFNAME @ i @ '' <'' @ n @ ''>'' @ rest @ NUL # x # tail)
           (length (IFNAME @ i @ '' <'' @ n @ ''>'' @ rest))
         = Inr (IFNAME @ i @ '' '' @ rest @ NUL # x #
                  drop (length rest + 2) (''<'' @ n @ ''>'' @ rest @ [NUL, x]) @ tail,
                length (IFNAME @ i @ '' '' @ rest))"
proof -
  let ?buf = "IFNAME @ i @ '' <'' @ n @ ''>'' @ rest @ NUL # x # tail"
  let ?nread = "length (IFNAME @ i @ '' <'' @ n @ ''>'' @ rest)"
  have c: "strncmp_eq ?buf 0 IFNAME = Inr True"
    using strncmp_eq_IFNAME_prefix [of "i @ '' <'' @ n @ ''>'' @ rest" "x # tail"] by simp
  have s1: "strchr ?buf 0 (CHR '' '') = Inr (Some (7 + length i))"
    using strchr_found [of "CHR '' ''" "IFNAME @ i" "[]" "''<'' @ n @ ''>'' @ rest @ NUL # x # tail"] assms
    by (simp add: IFNAME_chars)
  have at: "?buf ! (7 + length i + 1) = CHR ''<''"
    using nth_append_length [of "IFNAME @ i @ '' ''" "CHR ''<''" "n @ ''>'' @ rest @ NUL # x # tail"]
    by (simp add: IFNAME_chars)
  have s2: "strchr ?buf (7 + length i + 2) (CHR ''>'') = Inr (Some (7 + length i + 2 + length n))"
    using strchr_found [of "CHR ''>''" n "IFNAME @ i @ '' <''" "rest @ NUL # x # tail"] assms
    by (simp add: IFNAME_chars)
  have mm: "memmove ?buf (7 + length i + 1) (7 + length i + 2 + length n + 1) (length rest + 2)
            = Inr ((IFNAME @ i @ '' '') @ (rest @ [NUL, x]) @
                   drop (length (rest @ [NUL, x])) ((''<'' @ n @ ''>'') @ (rest @ [NUL, x])) @ tail)"
    using memmove_shift [of "IFNAME @ i @ '' ''" "''<'' @ n @ ''>''" "rest @ [NUL, x]" tail]
    by (simp add: IFNAME_chars)
  have n1: "size_sub ?nread (7 + length i + 2 + length n - (7 + length i)) = 7 + length i + 1 + length rest"
    by (simp add: size_sub_def IFNAME_chars)
  have n2: "size_sub (7 + length i + 1 + length rest) (7 + length i) + 1 = length rest + 2"
    by (simp add: size_sub_def)
  have len: "length ?buf > 7 + length i + 1" by (simp add: IFNAME_chars)
  show ?thesis
    unfolding normalize_event_def c s1 using at s2 n1 n2 mm len
    by (simp add: IFNAME_chars)
qed

text \<open>A bare tagged message loses its tag, whatever follows the terminator.\<close>

lemma normalize_bare_tag:
  assumes "CHR ''>'' \<notin> set n" "NUL \<notin> set n"
  shows "normalize_event (''<'' @ n @ ''>'' @ rest @ NUL # tail) (length (''<'' @ n @ ''>'' @ rest))
         = Inr (rest @ NUL # drop (length rest + 1) (''<'' @ n @ ''>'' @ rest @ [NUL]) @ tail,
                length rest)"
proof -
  let ?buf = "''<'' @ n @ ''>'' @ rest @ NUL # tail"
  have c: "strncmp_eq ?buf 0 IFNAME = Inr False"
    by (simp add: IFNAME_def)
  have s: "strchr ?buf 0 (CHR ''>'') = Inr (Some (1 + length n))"
    using strchr_found [of "CHR ''>''" "''<'' @ n" "[]" "rest @ NUL # tail"] assms
    by (simp add: NUL_def)
  have mm: "memmove ?buf 0 (1 + length n + 1) (length rest + 1)
            = Inr ([] @ (rest @ [NUL]) @
                   drop (length (rest @ [NUL])) ((''<'' @ n @ ''>'') @ (rest @ [NUL])) @ tail)"
    using memmove_shift [of "[]" "''<'' @ n @ ''>''" "rest @ [NUL]" tail] by simp
  have n1: "size_sub (length (''<'' @ n @ ''>'' @ rest)) (1 + length n + 1) = length rest"
    by (simp add: size_sub_def)
  show ?thesis
    unfolding normalize_event_def c s using n1 mm by (simp add: Let_def)
qed

lemma normalize_ifname_untagged:
  assumes "CHR '' '' \<notin> set i" "NUL \<notin> set i" "\<not> prefix ''<'' rest"
  shows "normalize_event (IFNAME @ i @ '' '' @ rest @ NUL # tail) m
         = Inr (IFNAME @ i @ '' '' @ rest @ NUL # tail, m)"
proof -
  let ?buf = "IFNAME @ i @ '' '' @ rest @ NUL # tail"
  have c: "strncmp_eq ?buf 0 IFNAME = Inr True"
    using strncmp_eq_IFNAME_prefix [of "i @ '' '' @ rest" tail] by simp
  have s1: "strchr ?buf 0 (CHR '' '') = Inr (Some (7 + length i))"
    using strchr_found [of "CHR '' ''" "IFNAME @ i" "[]" "rest @ NUL # tail"] assms
    by (simp add: IFNAME_chars)
  have "?buf ! (7 + length i + 1) = (rest @ NUL # tail) ! 0"
    using nth_append_length_plus [of "IFNAME @ i @ '' ''" "rest @ NUL # tail" 0]
    by (simp add: IFNAME_chars)
  also have "\<dots> \<noteq> CHR ''<''"
    using assms(3) by (cases rest) (simp_all add: NUL_def)
  finally have at: "?buf ! (7 + length i + 1) \<noteq> CHR ''<''" .
  have len: "length ?buf > 7 + length i + 1" by (simp add: IFNAME_chars)
  show ?thesis
    unfolding normalize_event_def c s1 using at len by simp
qed

lemma normalize_plain:
  assumes "\<not> prefix IFNAME ys" "\<not> prefix ''<'' ys"
  shows "normalize_event (ys @ NUL # tail) m = Inr (ys @ NUL # tail, m)"
proof -
  have c: "strncmp_eq (ys @ NUL # tail) 0 IFNAME = Inr False"
    using strncmp_eq_IFNAME_iff [of ys tail] assms by simp
  have at: "(ys @ NUL # tail) ! 0 \<noteq> CHR ''<''"
    using assms(2) by (cases ys) (simp_all add: NUL_def)
  show ?thesis
    unfolding normalize_event_def c using at by simp
qed

lemma ignore_marker_plain:
  "\<not> prefix IFNAME (take k WPA_EVENT_IGNORE) \<and> \<not> prefix ''<'' (take k WPA_EVENT_IGNORE)"
  by (cases k) (simp_all add: WPA_EVENT_IGNORE_def IFNAME_def)

lemma normalize_ignore_marker:
  assumes "buf \<noteq> []"
  shows "normalize_event (fst (snprintf buf WPA_EVENT_IGNORE)) m
         = Inr (fst (snprintf buf WPA_EVENT_IGNORE), m)"
proof -
  have "fst (snprintf buf WPA_EVENT_IGNORE)
        = take (min (length WPA_EVENT_IGNORE) (length buf - 1)) WPA_EVENT_IGNORE
          @ NUL # drop (Suc (min (length WPA_EVENT_IGNORE) (length buf - 1))) buf"
    using assms by (simp add: snprintf_def Let_def)
  then show ?thesis
    using normalize_plain [OF ignore_marker_plain [THEN conjunct1] ignore_marker_plain [THEN conjunct2]]
    by simp
qed

text \<open>
  Claim C1: every message \<open>IFNAME={i} <{n}>{rest}\<close> is rewritten in place to
  \<open>IFNAME={i} {rest}\<close>, and every message \<open><{n}>{rest}\<close> to \<open>{rest}\<close>, the length reduced by
  the width of the tag. The code misses this for a message that fills the buffer: the count
  given to \<open>memmove\<close> in the \<open>IFNAME=\<close> branch is one more than the bytes that remain up to
  the terminator, so the copy reads the byte after \<open>buf[nread]\<close>. With 15 bytes received
  into 16 that byte lies outside the buffer; with 17 bytes of room the message is rewritten
  as stated.
\<close>

theorem wait_tag_fills_buffer:
  "wifi_wait_on_socket connected_state (event_env ''IFNAME=a <3>xyz'') (replicate 16 (CHR ''?''))
     = Some (connected_state, Inl OutOfBounds)
   \<and> wifi_wait_on_socket connected_state (event_env ''IFNAME=a <3>xyz'') (replicate 17 (CHR ''?''))
     = Some (connected_state, Inr (''IFNAME=a xyz'' @ [NUL, CHR ''?'', CHR ''z'', NUL, CHR ''?''], 12))"
  by code_simp

text \<open>
  Claim C2: a message whose tag opener \<open><\<close> has no closing \<open>>\<close> before the end of the
  message, behind \<open>IFNAME={i} \<close> or bare, is returned as it is, buffer and length, and no
  access leaves the buffer: the result is not a fault for any number of bytes after the
  terminator, none included.
\<close>

theorem normalize_unclosed_tag:
  assumes "CHR ''>'' \<notin> set t" "CHR '' '' \<notin> set i" "NUL \<notin> set i"
  shows "normalize_event (IFNAME @ i @ '' <'' @ t @ NUL # tail) (length (IFNAME @ i @ '' <'' @ t))
           = Inr (IFNAME @ i @ '' <'' @ t @ NUL # tail, length (IFNAME @ i @ '' <'' @ t))
       \<and> normalize_event (''<'' @ t @ NUL # tail) (length (''<'' @ t))
           = Inr (''<'' @ t @ NUL # tail, length (''<'' @ t))"
proof
  let ?buf = "IFNAME @ i @ '' <'' @ t @ NUL # tail"
  have c: "strncmp_eq ?buf 0 IFNAME = Inr True"
    using strncmp_eq_IFNAME_prefix [of "i @ '' <'' @ t" tail] by simp
  have s1: "strchr ?buf 0 (CHR '' '') = Inr (Some (7 + length i))"
    using strchr_found [of "CHR '' ''" "IFNAME @ i" "[]" "''<'' @ t @ NUL # tail"] assms
    by (simp add: IFNAME_chars)
  have at: "?buf ! (7 + length i + 1) = CHR ''<''"
    using nth_append_length [of "IFNAME @ i @ '' ''" "CHR ''<''" "t @ NUL # tail"]
    by (simp add: IFNAME_chars)
  have s2: "strchr ?buf (7 + length i + 2) (CHR ''>'') = Inr None"
    using strchr_none [of "CHR ''>''" t "IFNAME @ i @ '' <''" tail] assms
    by (simp add: IFNAME_chars NUL_def)
  have len: "length ?buf > 7 + length i + 1" by (simp add: IFNAME_chars)
  show "normalize_event ?buf (length (IFNAME @ i @ '' <'' @ t)) = Inr (?buf, length (IFNAME @ i @ '' <'' @ t))"
    unfolding normalize_event_def c s1 using at s2 len by simp
next
  let ?buf = "''<'' @ t @ NUL # tail"
  have c: "strncmp_eq ?buf 0 IFNAME = Inr False"
    by (simp add: IFNAME_def)
  have s: "strchr ?buf 0 (CHR ''>'') = Inr None"
    using strchr_none [of "CHR ''>''" "''<'' @ t" "[]" tail] assms
    by (simp add: NUL_def)
  show "normalize_event ?buf (length (''<'' @ t)) = Inr (?buf, length (''<'' @ t))"
    unfolding normalize_event_def c s by simp
qed

theorem normalize_unclosed_tag_witness:
  "normalize_event (''IFNAME=wlan0 <3CTRL-EVENT-CONNECTED'' @ [NUL])
       (length ''IFNAME=wlan0 <3CTRL-EVENT-CONNECTED'')
     = Inr (''IFNAME=wlan0 <3CTRL-EVENT-CONNECTED'' @ [NUL],
            length ''IFNAME=wlan0 <3CTRL-EVENT-CONNECTED'')
   \<and> normalize_event (''<3CTRL-EVENT-CONNECTED'' @ [NUL]) (length ''<3CTRL-EVENT-CONNECTED'')
     = Inr (''<3CTRL-EVENT-CONNECTED'' @ [NUL], length ''<3CTRL-EVENT-CONNECTED'')"
  using normalize_unclosed_tag [of "''3CTRL-EVENT-CONNECTED''" "''wlan0''" "[]"]
  by (simp add: IFNAME_def NUL_def)




text \<open>
  Claim C7, as the code has it: a second pass returns what the first returned when the
  first strips the tag of \<open>IFNAME={i} <{n}>{rest}\<close> or of \<open><{n}>{rest}\<close> and \<open>rest\<close> does not
  begin with \<open><\<close> (nor, for the bare shape, with \<open>IFNAME=\<close>), when the first pass returns
  its input unchanged, and when it stores the ignore-marker.
\<close>

theorem normalize_twice_single_tag:
  assumes "CHR ''>'' \<notin> set n" "NUL \<notin> set n" "\<not> prefix ''<'' rest"
  shows "(CHR '' '' \<notin> set i \<and> NUL \<notin> set i \<longrightarrow>
            normalize_event (IFNAME @ i @ '' <'' @ n @ ''>'' @ rest @ NUL # x # tail)
                (length (IFNAME @ i @ '' <'' @ n @ ''>'' @ rest))
            = Inr (IFNAME @ i @ '' '' @ rest @ NUL # x #
                     drop (length rest + 2) (''<'' @ n @ ''>'' @ rest @ [NUL, x]) @ tail,
                   length (IFNAME @ i @ '' '' @ rest))
          \<and> normalize_twice (IFNAME @ i @ '' <'' @ n @ ''>'' @ rest @ NUL # x # tail)
                (length (IFNAME @ i @ '' <'' @ n @ ''>'' @ rest))
            = normalize_event (IFNAME @ i @ '' <'' @ n @ ''>'' @ rest @ NUL # x # tail)
                (length (IFNAME @ i @ '' <'' @ n @ ''>'' @ rest)))
       \<and> (\<not> prefix IFNAME rest \<longrightarrow>
            normalize_event (''<'' @ n @ ''>'' @ rest @ NUL # tail)
                (length (''<'' @ n @ ''>'' @ rest))
            = Inr (rest @ NUL # drop (length rest + 1) (''<'' @ n @ ''>'' @ rest @ [NUL]) @ tail,
                   length rest)
          \<and> normalize_twice (''<'' @ n @ ''>'' @ rest @ NUL # tail)
                (length (''<'' @ n @ ''>'' @ rest))
            = normalize_event (''<'' @ n @ ''>'' @ rest @ NUL # tail)
                (length (''<'' @ n @ ''>'' @ rest)))
       \<and> (normalize_event buf nread = Inr (buf, nread) \<longrightarrow>
            normalize_twice buf nread = normalize_event buf nread)
       \<and> (normalize_event buf nread = Inr (snprintf buf WPA_EVENT_IGNORE) \<longrightarrow>
            normalize_twice buf nread = normalize_event buf nread)"
proof (intro conjI)
  show "CHR '' '' \<notin> set i \<and> NUL \<notin> set i \<longrightarrow>
            normalize_event (IFNAME @ i @ '' <'' @ n @ ''>'' @ rest @ NUL # x # tail)
                (length (IFNAME @ i @ '' <'' @ n @ ''>'' @ rest))
            = Inr (IFNAME @ i @ '' '' @ rest @ NUL # x #
                     drop (length rest + 2) (''<'' @ n @ ''>'' @ rest @ [NUL, x]) @ tail,
                   length (IFNAME @ i @ '' '' @ rest))
          \<and> normalize_twice (IFNAME @ i @ '' <'' @ n @ ''>'' @ rest @ NUL # x # tail)
                (length (IFNAME @ i @ '' <'' @ n @ ''>'' @ rest))
            = normalize_event (IFNAME @ i @ '' <'' @ n @ ''>'' @ rest @ NUL # x # tail)
                (length (IFNAME @ i @ '' <'' @ n @ ''>'' @ rest))"
  proof
    assume i: "CHR '' '' \<notin> set i \<and> NUL \<notin> set i"
    let ?stale = "x # drop (length rest + 2) (''<'' @ n @ ''>'' @ rest @ [NUL, x]) @ tail"
    have first: "normalize_event (IFNAME @ i @ '' <'' @ n @ ''>'' @ rest @ NUL # x # tail)
                   (length (IFNAME @ i @ '' <'' @ n @ ''>'' @ rest))
                 = Inr (IFNAME @ i @ '' '' @ rest @ NUL # ?stale,
                        length (IFNAME @ i @ '' '' @ rest))"
      using normalize_ifname_tag [of i n rest x tail] i assms by simp
    have second: "normalize_event (IFNAME @ i @ '' '' @ rest @ NUL # ?stale)
                    (length (IFNAME @ i @ '' '' @ rest))
                  = Inr (IFNAME @ i @ '' '' @ rest @ NUL # ?stale,
                         length (IFNAME @ i @ '' '' @ rest))"
      using normalize_ifname_untagged [of i rest ?stale] i assms by simp
    have twice: "normalize_twice (IFNAME @ i @ '' <'' @ n @ ''>'' @ rest @ NUL # x # tail)
                  (length (IFNAME @ i @ '' <'' @ n @ ''>'' @ rest))
            = normalize_event (IFNAME @ i @ '' <'' @ n @ ''>'' @ rest @ NUL # x # tail)
                  (length (IFNAME @ i @ '' <'' @ n @ ''>'' @ rest))"
      unfolding normalize_twice_def first using second by simp
    from first twice show
      "normalize_event (IFNAME @ i @ '' <'' @ n @ ''>'' @ rest @ NUL # x # tail)
                (length (IFNAME @ i @ '' <'' @ n @ ''>'' @ rest))
            = Inr (IFNAME @ i @ '' '' @ rest @ NUL # x #
                     drop (length rest + 2) (''<'' @ n @ ''>'' @ rest @ [NUL, x]) @ tail,
                   length (IFNAME @ i @ '' '' @ rest))
          \<and> normalize_twice (IFNAME @ i @ '' <'' @ n @ ''>'' @ rest @ NUL # x # tail)
                (length (IFNAME @ i @ '' <'' @ n @ ''>'' @ rest))
            = normalize_event (IFNAME @ i @ '' <'' @ n @ ''>'' @ rest @ NUL # x # tail)
                (length (IFNAME @ i @ '' <'' @ n @ ''>'' @ rest))"
      by (intro conjI)
  qed
next
  show "\<not> prefix IFNAME rest \<longrightarrow>
            normalize_event (''<'' @ n @ ''>'' @ rest @ NUL # tail)
                (length (''<'' @ n @ ''>'' @ rest))
            = Inr (rest @ NUL # drop (length rest + 1) (''<'' @ n @ ''>'' @ rest @ [NUL]) @ tail,
                   length rest)
          \<and> normalize_twice (''<'' @ n @ ''>'' @ rest @ NUL # tail)
                (length (''<'' @ n @ ''>'' @ rest))
            = normalize_event (''<'' @ n @ ''>'' @ rest @ NUL # tail)
                (length (''<'' @ n @ ''>'' @ rest))"
  proof
    assume r: "\<not> prefix IFNAME rest"
    let ?stale = "drop (length rest + 1) (''<'' @ n @ ''>'' @ rest @ [NUL]) @ tail"
    have first: "normalize_event (''<'' @ n @ ''>'' @ rest @ NUL # tail)
                   (length (''<'' @ n @ ''>'' @ rest))
                 = Inr (rest @ NUL # ?stale, length rest)"
      using normalize_bare_tag [of n rest tail] assms by simp
    have second: "normalize_event (rest @ NUL # ?stale) (length rest)
                  = Inr (rest @ NUL # ?stale, length rest)"
      using normalize_plain [of rest ?stale] r assms by simp
    have twice: "normalize_twice (''<'' @ n @ ''>'' @ rest @ NUL # tail)
                   (length (''<'' @ n @ ''>'' @ rest))
            = normalize_event (''<'' @ n @ ''>'' @ rest @ NUL # tail)
                   (length (''<'' @ n @ ''>'' @ rest))"
      unfolding normalize_twice_def first using second by simp
    from first twice show
      "normalize_event (''<'' @ n @ ''>'' @ rest @ NUL # tail)
                (length (''<'' @ n @ ''>'' @ rest))
            = Inr (rest @ NUL # drop (length rest + 1) (''<'' @ n @ ''>'' @ rest @ [NUL]) @ tail,
                   length rest)
          \<and> normalize_twice (''<'' @ n @ ''>'' @ rest @ NUL # tail)
                (length (''<'' @ n @ ''>'' @ rest))
            = normalize_event (''<'' @ n @ ''>'' @ rest @ NUL # tail)
                (length (''<'' @ n @ ''>'' @ rest))"
      by (intro conjI)
  qed
next
  show "normalize_event buf nread = Inr (buf, nread) \<longrightarrow>
            normalize_twice buf nread = normalize_event buf nread"
    by (simp add: normalize_twice_def)
next
  show "normalize_event buf nread = Inr (snprintf buf WPA_EVENT_IGNORE) \<longrightarrow>
            normalize_twice buf nread = normalize_event buf nread"
  proof
    assume a: "normalize_event buf nread = Inr (snprintf buf WPA_EVENT_IGNORE)"
    have "buf \<noteq> []"
    proof
      assume "buf = []"
      then have "normalize_event buf nread = Inl OutOfBounds"
        by (simp add: normalize_event_def IFNAME_def)
      with a show False by simp
    qed
    then have "normalize_event (fst (snprintf buf WPA_EVENT_IGNORE)) (length WPA_EVENT_IGNORE)
               = Inr (fst (snprintf buf WPA_EVENT_IGNORE), length WPA_EVENT_IGNORE)"
      by (rule normalize_ignore_marker)
    with a show "normalize_twice buf nread = normalize_event buf nread"
      using snprintf_pair [of buf WPA_EVENT_IGNORE]
      by (cases "snprintf buf WPA_EVENT_IGNORE") (simp add: normalize_twice_def)
  qed
qed

theorem normalize_twice_single_tag_witness:
  "normalize_twice (IFNAME @ ''wlan0'' @ '' <'' @ ''3'' @ ''>'' @ ''CTRL-EVENT-CONNECTED'' @ NUL # NUL # [])
       (length (IFNAME @ ''wlan0'' @ '' <'' @ ''3'' @ ''>'' @ ''CTRL-EVENT-CONNECTED''))
     = normalize_event (IFNAME @ ''wlan0'' @ '' <'' @ ''3'' @ ''>'' @ ''CTRL-EVENT-CONNECTED'' @ NUL # NUL # [])
       (length (IFNAME @ ''wlan0'' @ '' <'' @ ''3'' @ ''>'' @ ''CTRL-EVENT-CONNECTED''))
   \<and> normalize_twice (''<'' @ ''3'' @ ''>'' @ ''CTRL-EVENT-CONNECTED'' @ NUL # [])
       (length (''<'' @ ''3'' @ ''>'' @ ''CTRL-EVENT-CONNECTED''))
     = normalize_event (''<'' @ ''3'' @ ''>'' @ ''CTRL-EVENT-CONNECTED'' @ NUL # [])
       (length (''<'' @ ''3'' @ ''>'' @ ''CTRL-EVENT-CONNECTED''))
   \<and> normalize_twice (''CTRL-EVENT-SCAN-RESULTS'' @ [NUL]) 23
     = normalize_event (''CTRL-EVENT-SCAN-RESULTS'' @ [NUL]) 23
   \<and> normalize_twice (''IFNAME=wlan0'' @ [NUL]) 12 = normalize_event (''IFNAME=wlan0'' @ [NUL]) 12"
proof -
  have a: "normalize_event (''CTRL-EVENT-SCAN-RESULTS'' @ [NUL]) 23
           = Inr (''CTRL-EVENT-SCAN-RESULTS'' @ [NUL], 23)"
    by code_simp
  have b: "normalize_event (''IFNAME=wlan0'' @ [NUL]) 12
           = Inr (snprintf (''IFNAME=wlan0'' @ [NUL]) WPA_EVENT_IGNORE)"
    by code_simp
  show ?thesis
    using normalize_twice_single_tag [of "''3''" "''CTRL-EVENT-CONNECTED''" "''wlan0''" NUL "[]"
        "''CTRL-EVENT-SCAN-RESULTS'' @ [NUL]" 23]
      normalize_twice_single_tag [of "''3''" "''CTRL-EVENT-CONNECTED''" "''wlan0''" NUL "[]"
        "''IFNAME=wlan0'' @ [NUL]" 12] a b
    by (simp add: NUL_def IFNAME_def)
qed

text \<open>
  The claim as stated fails: one pass strips one tag, so \<open><1><2>abc\<close> becomes \<open><2>abc\<close> and
  then \<open>abc\<close>.
\<close>

theorem normalize_twice_strips_again:
  "normalize_event (''<1><2>abc'' @ [NUL]) 9 = Inr (''<2>abc'' @ [NUL, CHR ''b'', CHR ''c'', NUL], 6)
   \<and> normalize_twice (''<1><2>abc'' @ [NUL]) 9
       = Inr (''abc'' @ [NUL, CHR ''b'', CHR ''c'', NUL, CHR ''b'', CHR ''c'', NUL], 3)
   \<and> normalize_twice (''<1><2>abc'' @ [NUL]) 9 \<noteq> normalize_event (''<1><2>abc'' @ [NUL]) 9"
  by code_simp

section \<open>Properties of the start of the daemon\<close>

lemma poll_sees_shift:
  "poll_sees env serial (pi \<or> prop_find env t) (Suc t) j v = poll_sees env serial pi t (Suc j) v"
proof -
  have "[t ..< t + Suc j + 1] = t # [Suc t ..< Suc t + j + 1]"
    by (simp add: upt_conv_Cons)
  then show ?thesis by (auto simp: poll_sees_def)
qed

lemma poll_sees_0:
  "poll_sees env serial pi t 0 v =
     ((pi \<or> prop_find env t) \<and> prop_serial env t \<noteq> serial \<and> prop_value env t = v)"
  by (simp add: poll_sees_def)

lemma start_poll_terminal:
  assumes "k < count"
    and "\<forall>j<k. \<not> poll_sees env serial pi t j ''running'' \<and> \<not> poll_sees env serial pi t j ''stopped''"
    and "poll_sees env serial pi t k v" and "v = ''running'' \<or> v = ''stopped''"
  shows "start_poll env serial pi t st count
         = (if v = ''running'' then 0 else - 1,
            st\<lparr>calls := calls st @ replicate k (Usleep 100000)\<rparr>)"
  using assms
proof (induction count arbitrary: pi t st k)
  case 0
  then show ?case by simp
next
  case (Suc count)
  show ?case
  proof (cases k)
    case 0
    with Suc.prems show ?thesis
      by (auto simp: poll_sees_0 Let_def)
  next
    case (Suc k')
    from Suc.prems(2) Suc have no0:
      "\<not> poll_sees env serial pi t 0 ''running''" "\<not> poll_sees env serial pi t 0 ''stopped''"
      by auto
    have later: "\<forall>j<k'. \<not> poll_sees env serial (pi \<or> prop_find env t) (Suc t) j ''running''
                      \<and> \<not> poll_sees env serial (pi \<or> prop_find env t) (Suc t) j ''stopped''"
      using Suc.prems(2) Suc by (simp add: poll_sees_shift)
    have at: "poll_sees env serial (pi \<or> prop_find env t) (Suc t) k' v"
      using Suc.prems(3) Suc by (simp add: poll_sees_shift)
    have "start_poll env serial (pi \<or> prop_find env t) (Suc t)
            (st\<lparr>calls := calls st @ [Usleep 100000]\<rparr>) count
          = (if v = ''running'' then 0 else - 1,
             (st\<lparr>calls := calls st @ [Usleep 100000]\<rparr>)
               \<lparr>calls := calls (st\<lparr>calls := calls st @ [Usleep 100000]\<rparr>)
                          @ replicate k' (Usleep 100000)\<rparr>)"
      using Suc.IH [OF _ later at Suc.prems(4)] Suc.prems(1) Suc by simp
    with no0 Suc show ?thesis
      by (auto simp: poll_sees_0 Let_def replicate_app_Cons_same)
  qed
qed

lemma start_poll_timeout:
  assumes "\<forall>j<count. \<not> poll_sees env serial pi t j ''running''
                      \<and> \<not> poll_sees env serial pi t j ''stopped''"
  shows "start_poll env serial pi t st count
         = (- 1, st\<lparr>calls := calls st @ replicate count (Usleep 100000)\<rparr>)"
  using assms
proof (induction count arbitrary: pi t st)
  case 0
  then show ?case by simp
next
  case (Suc count)
  from Suc.prems have no0:
    "\<not> poll_sees env serial pi t 0 ''running''" "\<not> poll_sees env serial pi t 0 ''stopped''"
    by auto
  have later: "\<forall>j<count. \<not> poll_sees env serial (pi \<or> prop_find env t) (Suc t) j ''running''
                    \<and> \<not> poll_sees env serial (pi \<or> prop_find env t) (Suc t) j ''stopped''"
    using Suc.prems by (simp add: poll_sees_shift)
  have "start_poll env serial (pi \<or> prop_find env t) (Suc t)
          (st\<lparr>calls := calls st @ [Usleep 100000]\<rparr>) count
        = (- 1, (st\<lparr>calls := calls st @ [Usleep 100000]\<rparr>)
               \<lparr>calls := calls (st\<lparr>calls := calls st @ [Usleep 100000]\<rparr>)
                          @ replicate count (Usleep 100000)\<rparr>)"
    by (rule Suc.IH [OF later])
  with no0 show ?case
    by (auto simp: poll_sees_0 Let_def replicate_app_Cons_same)
qed

lemma wifi_start_supplicant_poll:
  assumes "init_status env \<noteq> ''running''" "config_ok env"
  shows "wifi_start_supplicant st env
         = start_poll env (recorded_serial env) (prop_find env 0) 1 (start_issued st env 0) 200"
  using assms by (simp add: wifi_start_supplicant_def recorded_serial_def start_issued_def Let_def)

lemma start_issued_sleeps:
  "(start_issued st env 0)\<lparr>calls := calls (start_issued st env 0) @ replicate k (Usleep 100000)\<rparr>
   = start_issued st env k"
  by (simp add: start_issued_def)

lemma supervisor_env_quiet:
  "j < t0 - 1 \<Longrightarrow> \<not> terminal_poll (supervisor_env cfg t0 v) j"
  by (auto simp: terminal_poll_def seen_status_def poll_sees_def recorded_serial_def
      supervisor_env_def)

lemma supervisor_env_sees:
  "0 < t0 \<Longrightarrow> seen_status (supervisor_env cfg t0 v) (t0 - 1) v"
  by (auto simp: seen_status_def poll_sees_def recorded_serial_def supervisor_env_def)

lemma supervisor_env_starting:
  "\<not> terminal_poll (supervisor_env cfg t0 ''starting'') j"
  by (auto simp: terminal_poll_def seen_status_def poll_sees_def recorded_serial_def
      supervisor_env_def)

text \<open>
  Claim C3, as the code has it. A call that finds the status \<open>running\<close> returns 0 and makes
  no call at all. Otherwise, if the primary configuration file cannot be ensured, it returns
  -1 and issues no start. Otherwise it records the serial, issues \<open>ctl.start\<close> and polls:
  the first poll \<open>k < 200\<close> that reads another serial together with \<open>running\<close> or
  \<open>stopped\<close> decides, 0 for \<open>running\<close> and -1 for \<open>stopped\<close>, after \<open>k\<close> sleeps of 100 ms;
  with no such poll among the 200 it returns -1 after 200 sleeps.
\<close>

theorem wifi_start_supplicant_outcomes:
  "(init_status env = ''running'' \<longrightarrow> wifi_start_supplicant st env = (0, st))
   \<and> (init_status env \<noteq> ''running'' \<and> \<not> config_ok env \<longrightarrow>
        wifi_start_supplicant st env
        = (- 1, st\<lparr>calls := calls st @ [EnsureConfigFile SUPP_CONFIG_FILE]\<rparr>))
   \<and> (init_status env \<noteq> ''running'' \<and> config_ok env \<and> k < 200
        \<and> (\<forall>j<k. \<not> terminal_poll env j) \<and> seen_status env k ''running'' \<longrightarrow>
        wifi_start_supplicant st env = (0, start_issued st env k))
   \<and> (init_status env \<noteq> ''running'' \<and> config_ok env \<and> k < 200
        \<and> (\<forall>j<k. \<not> terminal_poll env j) \<and> seen_status env k ''stopped'' \<longrightarrow>
        wifi_start_supplicant st env = (- 1, start_issued st env k))
   \<and> (init_status env \<noteq> ''running'' \<and> config_ok env
        \<and> (\<forall>j<200. \<not> terminal_poll env j) \<longrightarrow>
        wifi_start_supplicant st env = (- 1, start_issued st env 200))"
proof (intro conjI impI)
  assume "init_status env = ''running''"
  then show "wifi_start_supplicant st env = (0, st)"
    by (simp add: wifi_start_supplicant_def)
next
  assume "init_status env \<noteq> ''running'' \<and> \<not> config_ok env"
  then show "wifi_start_supplicant st env
             = (- 1, st\<lparr>calls := calls st @ [EnsureConfigFile SUPP_CONFIG_FILE]\<rparr>)"
    by (simp add: wifi_start_supplicant_def)
next
  assume a: "init_status env \<noteq> ''running'' \<and> config_ok env \<and> k < 200
        \<and> (\<forall>j<k. \<not> terminal_poll env j) \<and> seen_status env k ''running''"
  then have "start_poll env (recorded_serial env) (prop_find env 0) 1 (start_issued st env 0) 200
             = (if ''running'' = ''running'' then 0 else - 1,
                (start_issued st env 0)\<lparr>calls := calls (start_issued st env 0)
                                          @ replicate k (Usleep 100000)\<rparr>)"
    by (intro start_poll_terminal) (auto simp: terminal_poll_def seen_status_def)
  with a show "wifi_start_supplicant st env = (0, start_issued st env k)"
    by (simp add: wifi_start_supplicant_poll start_issued_sleeps)
next
  assume a: "init_status env \<noteq> ''running'' \<and> config_ok env \<and> k < 200
        \<and> (\<forall>j<k. \<not> terminal_poll env j) \<and> seen_status env k ''stopped''"
  then have "start_poll env (recorded_serial env) (prop_find env 0) 1 (start_issued st env 0) 200
             = (if ''stopped'' = ''running'' then 0 else - 1,
                (start_issued st env 0)\<lparr>calls := calls (start_issued st env 0)
                                          @ replicate k (Usleep 100000)\<rparr>)"
    by (intro start_poll_terminal) (auto simp: terminal_poll_def seen_status_def)
  with a show "wifi_start_supplicant st env = (- 1, start_issued st env k)"
    by (simp add: wifi_start_supplicant_poll start_issued_sleeps)
next
  assume a: "init_status env \<noteq> ''running'' \<and> config_ok env
        \<and> (\<forall>j<200. \<not> terminal_poll env j)"
  then have "start_poll env (recorded_serial env) (prop_find env 0) 1 (start_issued st env 0) 200
             = (- 1, (start_issued st env 0)\<lparr>calls := calls (start_issued st env 0)
                                          @ replicate 200 (Usleep 100000)\<rparr>)"
    by (intro start_poll_timeout) (auto simp: terminal_poll_def seen_status_def)
  with a show "wifi_start_supplicant st env = (- 1, start_issued st env 200)"
    by (simp add: wifi_start_supplicant_poll start_issued_sleeps)
qed

theorem wifi_start_supplicant_outcomes_witness:
  "wifi_start_supplicant idle_state ((supervisor_env True 3 ''running'')\<lparr>init_status := ''running''\<rparr>)
     = (0, idle_state)
   \<and> wifi_start_supplicant idle_state (supervisor_env False 3 ''running'')
     = (- 1, idle_state\<lparr>calls := calls idle_state @ [EnsureConfigFile SUPP_CONFIG_FILE]\<rparr>)
   \<and> wifi_start_supplicant idle_state (supervisor_env True 3 ''running'')
     = (0, start_issued idle_state (supervisor_env True 3 ''running'') 2)
   \<and> wifi_start_supplicant idle_state (supervisor_env True 3 ''stopped'')
     = (- 1, start_issued idle_state (supervisor_env True 3 ''stopped'') 2)
   \<and> wifi_start_supplicant idle_state (supervisor_env True 3 ''starting'')
     = (- 1, start_issued idle_state (supervisor_env True 3 ''starting'') 200)"
proof -
  have q: "\<forall>j<2. \<not> terminal_poll (supervisor_env True 3 v) j" for v
    by (simp add: supervisor_env_quiet)
  have s: "seen_status (supervisor_env True 3 v) 2 v" for v
    using supervisor_env_sees [of 3 True v] by simp
  have i: "init_status (supervisor_env cfg 3 v) \<noteq> ''running''"
    "config_ok (supervisor_env cfg 3 v) = cfg" for cfg v
    by (simp_all add: supervisor_env_def)
  show ?thesis
    using wifi_start_supplicant_outcomes
        [of "(supervisor_env True 3 ''running'')\<lparr>init_status := ''running''\<rparr>" idle_state 0]
      wifi_start_supplicant_outcomes [of "supervisor_env False 3 ''running''" idle_state 0]
      wifi_start_supplicant_outcomes [of "supervisor_env True 3 ''running''" idle_state 2]
      wifi_start_supplicant_outcomes [of "supervisor_env True 3 ''stopped''" idle_state 2]
      wifi_start_supplicant_outcomes [of "supervisor_env True 3 ''starting''" idle_state 0]
      q s i supervisor_env_starting
    by simp
qed

text \<open>
  The claim as stated fails where the status is not \<open>running\<close> and the configuration file
  cannot be ensured: the call fails before any start is issued and without polling.
\<close>

theorem start_without_config_file:
  "wifi_start_supplicant idle_state (supervisor_env False 3 ''running'')
     = (- 1, idle_state\<lparr>calls := [EnsureConfigFile SUPP_CONFIG_FILE]\<rparr>)
   \<and> PropertySet ''ctl.start'' SUPPLICANT_SERVICE_NAME
       \<notin> set (calls (snd (wifi_start_supplicant idle_state (supervisor_env False 3 ''running''))))
   \<and> init_status (supervisor_env False 3 ''running'') \<noteq> ''running''"
  by (simp add: wifi_start_supplicant_def supervisor_env_def idle_state_def)

section \<open>Properties of connecting\<close>

lemma connect_cases:
  "wifi_connect_on_socket_path st env path =
     (if conn_status env \<noteq> ''running'' then (- 1, st)
      else if open_ctrl env = None
      then (- 1, st\<lparr>ctrl_conn := None, calls := calls st @ [WpaCtrlOpen path None]\<rparr>)
      else if open_monitor env = None
      then (- 1, st\<lparr>ctrl_conn := None, monitor_conn := None,
                    calls := calls st @ [WpaCtrlOpen path (open_ctrl env), WpaCtrlOpen path None,
                                         WpaCtrlClose (the (open_ctrl env))]\<rparr>)
      else if attach_result env \<noteq> 0
      then (- 1, st\<lparr>ctrl_conn := None, monitor_conn := None,
                    calls := calls st @
                      [WpaCtrlOpen path (open_ctrl env), WpaCtrlOpen path (open_monitor env),
                       WpaCtrlAttach (the (open_monitor env)),
                       WpaCtrlClose (the (open_monitor env)), WpaCtrlClose (the (open_ctrl env))]\<rparr>)
      else if socketpair_result env = None
      then (- 1, st\<lparr>ctrl_conn := None, monitor_conn := None,
                    calls := calls st @
                      [WpaCtrlOpen path (open_ctrl env), WpaCtrlOpen path (open_monitor env),
                       WpaCtrlAttach (the (open_monitor env)), Socketpair None,
                       WpaCtrlClose (the (open_monitor env)), WpaCtrlClose (the (open_ctrl env))]\<rparr>)
      else (0, st\<lparr>ctrl_conn := open_ctrl env, monitor_conn := open_monitor env,
                  exit_sockets := the (socketpair_result env), exit_unread := [],
                  calls := calls st @
                    [WpaCtrlOpen path (open_ctrl env), WpaCtrlOpen path (open_monitor env),
                     WpaCtrlAttach (the (open_monitor env)),
                     Socketpair (socketpair_result env)]\<rparr>))"
  by (auto simp: wifi_connect_on_socket_path_def split: option.splits)

text \<open>
  Claim C5, as the code has it. Whatever the state at entry, a failed connect returns -1,
  leaves \<open>exit_sockets\<close> untouched, closes the handles it opened in reverse order, and creates
  no socket pair; when the daemon is not running it returns with the state exactly as it
  found it. Entered with both handles null, it leaves both null when it fails. When it
  succeeds all four resources are set. \<open>socketpair\<close> is called only after both opens and the
  attach have succeeded.
\<close>

theorem connect_all_or_none:
  assumes "wifi_connect_on_socket_path st env path = (r, st')"
  shows "(r \<noteq> 0 \<longrightarrow>
            r = - 1
            \<and> exit_sockets st' = exit_sockets st
            \<and> closed (new_calls st st') = rev (opened (new_calls st st'))
            \<and> socketpairs (new_calls st st') = []
            \<and> (conn_status env \<noteq> ''running'' \<longrightarrow> st' = st)
            \<and> (ctrl_conn st = None \<and> monitor_conn st = None \<longrightarrow>
                  ctrl_conn st' = None \<and> monitor_conn st' = None))
       \<and> (r = 0 \<longrightarrow>
            (\<exists>c m fds. open_ctrl env = Some c \<and> open_monitor env = Some m
               \<and> attach_result env = 0 \<and> socketpair_result env = Some fds
               \<and> ctrl_conn st' = Some c \<and> monitor_conn st' = Some m \<and> exit_sockets st' = fds
               \<and> new_calls st st' = [WpaCtrlOpen path (Some c), WpaCtrlOpen path (Some m),
                                      WpaCtrlAttach m, Socketpair (Some fds)]))
       \<and> (Socketpair (socketpair_result env) \<in> set (new_calls st st') \<longrightarrow>
            (\<exists>c m. take 3 (new_calls st st')
                     = [WpaCtrlOpen path (Some c), WpaCtrlOpen path (Some m), WpaCtrlAttach m]
                   \<and> attach_result env = 0))"
  using assms
  by (auto simp: connect_cases new_calls_def split: if_splits)

theorem connect_all_or_none_witness:
  "closed [WpaCtrlOpen ''p'' (Some 1), WpaCtrlOpen ''p'' (Some 2), WpaCtrlAttach 2,
           Socketpair None, WpaCtrlClose 2, WpaCtrlClose 1]
     = rev (opened [WpaCtrlOpen ''p'' (Some 1), WpaCtrlOpen ''p'' (Some 2), WpaCtrlAttach 2,
                    Socketpair None, WpaCtrlClose 2, WpaCtrlClose 1])
   \<and> ctrl_conn (snd (wifi_connect_on_socket_path idle_state
         (connect_example ''running'' (Some 1) (Some 2) 0 None) ''p'')) = None
   \<and> monitor_conn (snd (wifi_connect_on_socket_path idle_state
         (connect_example ''running'' (Some 1) (Some 2) 0 None) ''p'')) = None
   \<and> ctrl_conn (snd (wifi_connect_on_socket_path idle_state
         (connect_example ''running'' None (Some 2) 0 (Some (3, 4))) ''p'')) = None
   \<and> monitor_conn (snd (wifi_connect_on_socket_path idle_state
         (connect_example ''running'' None (Some 2) 0 (Some (3, 4))) ''p'')) = None
   \<and> snd (wifi_connect_on_socket_path connected_state
         (connect_example ''stopped'' (Some 5) (Some 6) 0 (Some (7, 8))) ''p'') = connected_state
   \<and> wifi_connect_on_socket_path idle_state
       (connect_example ''running'' (Some 1) (Some 2) 0 (Some (3, 4))) ''p''
     = (0, connected_state\<lparr>calls := [WpaCtrlOpen ''p'' (Some 1), WpaCtrlOpen ''p'' (Some 2),
                                       WpaCtrlAttach 2, Socketpair (Some (3, 4))]\<rparr>)"
proof -
  let ?failed = "idle_state\<lparr>calls := [WpaCtrlOpen ''p'' (Some 1), WpaCtrlOpen ''p'' (Some 2),
                                      WpaCtrlAttach 2, Socketpair None,
                                      WpaCtrlClose 2, WpaCtrlClose 1]\<rparr>"
  let ?env = "connect_example ''running'' (Some 1) (Some 2) 0 None"
  have e: "wifi_connect_on_socket_path idle_state ?env ''p'' = (- 1, ?failed)"
    by (simp add: wifi_connect_on_socket_path_def connect_example_def idle_state_def)
  have n: "new_calls idle_state ?failed
           = [WpaCtrlOpen ''p'' (Some 1), WpaCtrlOpen ''p'' (Some 2), WpaCtrlAttach 2,
              Socketpair None, WpaCtrlClose 2, WpaCtrlClose 1]"
    by (simp add: new_calls_def idle_state_def)
  have h: "ctrl_conn idle_state = None \<and> monitor_conn idle_state = None"
    by (simp add: idle_state_def)
  have 1: "closed [WpaCtrlOpen ''p'' (Some 1), WpaCtrlOpen ''p'' (Some 2), WpaCtrlAttach 2,
              Socketpair None, WpaCtrlClose 2, WpaCtrlClose 1]
     = rev (opened [WpaCtrlOpen ''p'' (Some 1), WpaCtrlOpen ''p'' (Some 2), WpaCtrlAttach 2,
                    Socketpair None, WpaCtrlClose 2, WpaCtrlClose 1])"
    using connect_all_or_none [OF e] unfolding n by simp
  have 2: "ctrl_conn (snd (wifi_connect_on_socket_path idle_state ?env ''p'')) = None
           \<and> monitor_conn (snd (wifi_connect_on_socket_path idle_state ?env ''p'')) = None"
    using connect_all_or_none [OF e] h unfolding e by simp
  let ?env3 = "connect_example ''running'' None (Some 2) 0 (Some (3, 4))"
  have e3: "wifi_connect_on_socket_path idle_state ?env3 ''p''
            = (- 1, idle_state\<lparr>ctrl_conn := None, calls := [WpaCtrlOpen ''p'' None]\<rparr>)"
    by (simp add: wifi_connect_on_socket_path_def connect_example_def idle_state_def)
  have 3: "ctrl_conn (snd (wifi_connect_on_socket_path idle_state ?env3 ''p'')) = None
           \<and> monitor_conn (snd (wifi_connect_on_socket_path idle_state ?env3 ''p'')) = None"
    using connect_all_or_none [OF e3] h unfolding e3 by simp
  let ?env4 = "connect_example ''stopped'' (Some 5) (Some 6) 0 (Some (7, 8))"
  have e4: "wifi_connect_on_socket_path connected_state ?env4 ''p'' = (- 1, connected_state)"
    by (simp add: wifi_connect_on_socket_path_def connect_example_def)
  have c4: "conn_status ?env4 \<noteq> ''running''"
    by (simp add: connect_example_def)
  have 4: "snd (wifi_connect_on_socket_path connected_state ?env4 ''p'') = connected_state"
    using connect_all_or_none [OF e4] c4 unfolding e4 by simp
  let ?env5 = "connect_example ''running'' (Some 1) (Some 2) 0 (Some (3, 4))"
  let ?ok = "connected_state\<lparr>calls := [WpaCtrlOpen ''p'' (Some 1), WpaCtrlOpen ''p'' (Some 2),
                                       WpaCtrlAttach 2, Socketpair (Some (3, 4))]\<rparr>"
  have 5: "wifi_connect_on_socket_path idle_state ?env5 ''p'' = (0, ?ok)"
    by (simp add: wifi_connect_on_socket_path_def connect_example_def idle_state_def
        connected_state_def)
  from 1 2 3 4 5 show ?thesis by (intro conjI) simp_all
qed

text \<open>
  The claim as stated fails: a connect entered while connected, with the daemon reported
  stopped, fails and leaves both handles as they were, not null.
\<close>

theorem connect_while_connected_keeps_handles:
  "wifi_connect_on_socket_path connected_state
       (connect_example ''stopped'' (Some 5) (Some 6) 0 (Some (7, 8))) ''p''
     = (- 1, connected_state)
   \<and> ctrl_conn connected_state = Some 1
   \<and> monitor_conn connected_state = Some 2"
  by (simp add: wifi_connect_on_socket_path_def connect_example_def connected_state_def)

section \<open>Properties of sending a command\<close>

lemma strncmp_eq_PING: "strncmp_eq (cmd @ [NUL]) 0 ''PING'' = Inr (prefix ''PING'' cmd)"
  using strncmp_eq_at [of "''PING''" "[]" cmd "[]"] by (simp add: NUL_def)

lemma strncmp_eq_FAIL:
  assumes "4 \<le> length r"
  shows "strncmp_eq r 0 ''FAIL'' = Inr (prefix ''FAIL'' r)"
proof -
  obtain a r1 where 1: "r = a # r1" using assms by (cases r) auto
  obtain b r2 where 2: "r1 = b # r2" using assms 1 by (cases r1) auto
  obtain c r3 where 3: "r2 = c # r3" using assms 1 2 by (cases r2) auto
  obtain d r4 where 4: "r3 = d # r4" using assms 1 2 3 by (cases r3) auto
  show ?thesis unfolding 1 2 3 4 by (auto simp: NUL_def)
qed

lemma strncmp_eq_FAIL_prefix:
  "prefix ''FAIL'' r \<Longrightarrow> strncmp_eq r 0 ''FAIL'' = Inr True"
  by (auto simp: prefix_def NUL_def)

text \<open>
  What the call returns, by what the transport answered. The test for \<open>FAIL\<close> is on the first
  four bytes of the reply buffer as the transport left it; the cases that return 0 take a
  buffer that holds those four bytes and, for \<open>PING\<close>, the byte at \<open>*reply_len\<close>.
\<close>

lemma wifi_send_command_cases:
  "(ctrl_conn st = None \<longrightarrow>
      wifi_send_command st tr cmd reply reply_len = Inr (- 1, st, reply, reply_len))
   \<and> (ctrl_conn st = Some c \<and> tr c cmd reply reply_len = (ret, reply', len') \<longrightarrow>
        (ret = - 2 \<longrightarrow>
           wifi_send_command st tr cmd reply reply_len
           = Inr (- 2,
                  st\<lparr>exit_unread := (if 0 \<le> fst (exit_sockets st) then exit_unread st @ ''T''
                                       else exit_unread st),
                     calls := calls st @ [WpaCtrlRequest c cmd,
                                          WriteFd (fst (exit_sockets st)) ''T'']\<rparr>,
                  reply', len'))
      \<and> (ret < 0 \<and> ret \<noteq> - 2 \<longrightarrow>
           wifi_send_command st tr cmd reply reply_len
           = Inr (- 1, st\<lparr>calls := calls st @ [WpaCtrlRequest c cmd]\<rparr>, reply', len'))
      \<and> (0 \<le> ret \<and> prefix ''FAIL'' reply' \<longrightarrow>
           wifi_send_command st tr cmd reply reply_len
           = Inr (- 1, st\<lparr>calls := calls st @ [WpaCtrlRequest c cmd]\<rparr>, reply', len'))
      \<and> (0 \<le> ret \<and> 4 \<le> length reply' \<and> \<not> prefix ''FAIL'' reply'
            \<and> \<not> prefix ''PING'' cmd \<longrightarrow>
           wifi_send_command st tr cmd reply reply_len
           = Inr (0, st\<lparr>calls := calls st @ [WpaCtrlRequest c cmd]\<rparr>, reply', len'))
      \<and> (0 \<le> ret \<and> 4 \<le> length reply' \<and> \<not> prefix ''FAIL'' reply'
            \<and> prefix ''PING'' cmd \<and> len' < length reply' \<longrightarrow>
           wifi_send_command st tr cmd reply reply_len
           = Inr (0, st\<lparr>calls := calls st @ [WpaCtrlRequest c cmd]\<rparr>,
                  reply'[len' := NUL], len')))"
proof (intro conjI impI)
  assume "ctrl_conn st = None"
  then show "wifi_send_command st tr cmd reply reply_len = Inr (- 1, st, reply, reply_len)"
    by (simp add: wifi_send_command_def)
next
  assume a: "ctrl_conn st = Some c \<and> tr c cmd reply reply_len = (ret, reply', len')" "ret = - 2"
  then show "wifi_send_command st tr cmd reply reply_len
           = Inr (- 2,
                  st\<lparr>exit_unread := (if 0 \<le> fst (exit_sockets st) then exit_unread st @ ''T''
                                       else exit_unread st),
                     calls := calls st @ [WpaCtrlRequest c cmd,
                                          WriteFd (fst (exit_sockets st)) ''T'']\<rparr>,
                  reply', len')"
    by (simp add: wifi_send_command_def)
next
  assume a: "ctrl_conn st = Some c \<and> tr c cmd reply reply_len = (ret, reply', len')"
    "ret < 0 \<and> ret \<noteq> - 2"
  then show "wifi_send_command st tr cmd reply reply_len
           = Inr (- 1, st\<lparr>calls := calls st @ [WpaCtrlRequest c cmd]\<rparr>, reply', len')"
    by (simp add: wifi_send_command_def)
next
  assume a: "ctrl_conn st = Some c \<and> tr c cmd reply reply_len = (ret, reply', len')"
    "0 \<le> ret \<and> prefix ''FAIL'' reply'"
  then have "strncmp_eq reply' 0 ''FAIL'' = Inr True"
    by (intro strncmp_eq_FAIL_prefix) blast
  with a show "wifi_send_command st tr cmd reply reply_len
           = Inr (- 1, st\<lparr>calls := calls st @ [WpaCtrlRequest c cmd]\<rparr>, reply', len')"
    by (simp add: wifi_send_command_def)
next
  assume a: "ctrl_conn st = Some c \<and> tr c cmd reply reply_len = (ret, reply', len')"
    "0 \<le> ret \<and> 4 \<le> length reply' \<and> \<not> prefix ''FAIL'' reply' \<and> \<not> prefix ''PING'' cmd"
  then have "strncmp_eq reply' 0 ''FAIL'' = Inr False"
    "strncmp_eq (cmd @ [NUL]) 0 ''PING'' = Inr False"
    by (simp_all only: strncmp_eq_FAIL strncmp_eq_PING)
  with a show "wifi_send_command st tr cmd reply reply_len
           = Inr (0, st\<lparr>calls := calls st @ [WpaCtrlRequest c cmd]\<rparr>, reply', len')"
    by (simp add: wifi_send_command_def)
next
  assume a: "ctrl_conn st = Some c \<and> tr c cmd reply reply_len = (ret, reply', len')"
    "0 \<le> ret \<and> 4 \<le> length reply' \<and> \<not> prefix ''FAIL'' reply' \<and> prefix ''PING'' cmd
       \<and> len' < length reply'"
  then have "strncmp_eq reply' 0 ''FAIL'' = Inr False"
    "strncmp_eq (cmd @ [NUL]) 0 ''PING'' = Inr True"
    by (simp_all only: strncmp_eq_FAIL strncmp_eq_PING)
  with a show "wifi_send_command st tr cmd reply reply_len
           = Inr (0, st\<lparr>calls := calls st @ [WpaCtrlRequest c cmd]\<rparr>,
                  reply'[len' := NUL], len')"
    by (simp add: wifi_send_command_def)
qed

lemma wifi_send_command_examples:
  "wifi_send_command idle_state timeout_request ''SCAN'' ''????????'' 8
     = Inr (- 1, idle_state, ''????????'', 8)
   \<and> wifi_send_command connected_state timeout_request ''SCAN'' ''????????'' 8
     = Inr (- 2, signalled_state, ''????????'', 8)
   \<and> wifi_send_command connected_state failing_request ''SCAN'' ''????????'' 8
     = Inr (- 1, connected_state\<lparr>calls := [WpaCtrlRequest 1 ''SCAN'']\<rparr>, ''????????'', 8)
   \<and> wifi_send_command connected_state (answering_request ''FAIL-BUSY'') ''SCAN'' ''????????'' 8
     = Inr (- 1, connected_state\<lparr>calls := [WpaCtrlRequest 1 ''SCAN'']\<rparr>, ''FAIL-BUS'', 8)
   \<and> wifi_send_command connected_state (answering_request ''OK'') ''SCAN'' ''????????'' 8
     = Inr (0, connected_state\<lparr>calls := [WpaCtrlRequest 1 ''SCAN'']\<rparr>, ''OK??????'', 2)
   \<and> wifi_send_command connected_state (answering_request ''PONG'') ''PING'' ''????????'' 8
     = Inr (0, connected_state\<lparr>calls := [WpaCtrlRequest 1 ''PING'']\<rparr>,
            ''PONG'' @ NUL # ''???'', 4)"
proof -
  have 1: "wifi_send_command idle_state timeout_request ''SCAN'' ''????????'' 8
     = Inr (- 1, idle_state, ''????????'', 8)"
    using wifi_send_command_cases [where st = idle_state and tr = timeout_request
      and cmd = "''SCAN''" and reply = "''????????''" and reply_len = 8]
    by (simp add: idle_state_def)
  have 2: "wifi_send_command connected_state timeout_request ''SCAN'' ''????????'' 8
     = Inr (- 2, signalled_state, ''????????'', 8)"
    using wifi_send_command_cases [where st = connected_state and tr = timeout_request
      and cmd = "''SCAN''" and reply = "''????????''" and reply_len = 8 and c = 1
      and ret = "- 2" and reply' = "''????????''" and len' = 8]
    by (simp add: connected_state_def signalled_state_def timeout_request_def)
  have 3: "wifi_send_command connected_state failing_request ''SCAN'' ''????????'' 8
     = Inr (- 1, connected_state\<lparr>calls := [WpaCtrlRequest 1 ''SCAN'']\<rparr>, ''????????'', 8)"
    using wifi_send_command_cases [where st = connected_state and tr = failing_request
      and cmd = "''SCAN''" and reply = "''????????''" and reply_len = 8 and c = 1
      and ret = "- 1" and reply' = "''????????''" and len' = 8]
    by (simp add: connected_state_def failing_request_def)
  have 4: "wifi_send_command connected_state (answering_request ''FAIL-BUSY'') ''SCAN'' ''????????'' 8
     = Inr (- 1, connected_state\<lparr>calls := [WpaCtrlRequest 1 ''SCAN'']\<rparr>, ''FAIL-BUS'', 8)"
    using wifi_send_command_cases [where st = connected_state
      and tr = "answering_request ''FAIL-BUSY''"
      and cmd = "''SCAN''" and reply = "''????????''" and reply_len = 8 and c = 1
      and ret = 0 and reply' = "''FAIL-BUS''" and len' = 8]
    by (simp add: connected_state_def answering_request_def)
  have 5: "wifi_send_command connected_state (answering_request ''OK'') ''SCAN'' ''????????'' 8
     = Inr (0, connected_state\<lparr>calls := [WpaCtrlRequest 1 ''SCAN'']\<rparr>, ''OK??????'', 2)"
    using wifi_send_command_cases [where st = connected_state and tr = "answering_request ''OK''"
      and cmd = "''SCAN''" and reply = "''????????''" and reply_len = 8 and c = 1
      and ret = 0 and reply' = "''OK??????''" and len' = 2]
    by (simp add: connected_state_def answering_request_def)
  have 6: "wifi_send_command connected_state (answering_request ''PONG'') ''PING'' ''????????'' 8
     = Inr (0, connected_state\<lparr>calls := [WpaCtrlRequest 1 ''PING'']\<rparr>,
            ''PONG'' @ NUL # ''???'', 4)"
    using wifi_send_command_cases [where st = connected_state and tr = "answering_request ''PONG''"
      and cmd = "''PING''" and reply = "''????????''" and reply_len = 8 and c = 1
      and ret = 0 and reply' = "''PONG????''" and len' = 4]
    by (simp add: connected_state_def answering_request_def)
  from 1 2 3 4 5 6 show ?thesis by (intro conjI)
qed

text \<open>
  Claim C4: without a command connection the call fails at once and the transport is not
  asked; a transport timeout writes one byte to the signaling pair and fails with -2; a
  transport error, or a reply that begins with \<open>FAIL\<close>, fails with -1; every other call
  succeeds, a \<open>PING\<close> with its reply terminated. The code misses the last part for a reply
  shorter than four bytes: it compares the first four bytes of the buffer without looking
  at \<open>*reply_len\<close>, as the \<open>PING\<close> branch does. An empty reply received into a buffer that
  still holds \<open>FAILxxxx\<close> is rejected with -1, where the same reply into a buffer holding
  other bytes succeeds.
\<close>

theorem send_empty_reply_over_stale_fail:
  "answering_request [] 1 ''SCAN'' ''FAILxxxx'' 8 = (0, ''FAILxxxx'', 0)
   \<and> wifi_send_command connected_state (answering_request []) ''SCAN'' ''FAILxxxx'' 8
     = Inr (- 1, connected_state\<lparr>calls := [WpaCtrlRequest 1 ''SCAN'']\<rparr>, ''FAILxxxx'', 0)
   \<and> wifi_send_command connected_state (answering_request []) ''SCAN'' ''????????'' 8
     = Inr (0, connected_state\<lparr>calls := [WpaCtrlRequest 1 ''SCAN'']\<rparr>, ''????????'', 0)"
  by code_simp

text \<open>
  Claim C10: a successful command beginning \<open>PING\<close> has had the terminator written at
  index \<open>*reply_len\<close>, which therefore lies inside the reply buffer; when the reply fills
  the buffer that write is out of bounds. A successful command not beginning \<open>PING\<close> gets
  the reply and its length exactly as the transport left them.
\<close>

theorem ping_terminator_index:
  assumes "ctrl_conn st = Some c" "tr c cmd reply reply_len = (ret, reply', len')"
  shows "(prefix ''PING'' cmd \<and> wifi_send_command st tr cmd reply reply_len = Inr (0, st', out, n)
            \<longrightarrow> n = len' \<and> len' < length reply' \<and> out = reply'[len' := NUL] \<and> out ! n = NUL)
       \<and> (prefix ''PING'' cmd \<and> 0 \<le> ret \<and> 4 \<le> length reply' \<and> \<not> prefix ''FAIL'' reply'
            \<and> length reply' \<le> len'
            \<longrightarrow> wifi_send_command st tr cmd reply reply_len = Inl OutOfBounds)
       \<and> (\<not> prefix ''PING'' cmd \<and> wifi_send_command st tr cmd reply reply_len = Inr (0, st', out, n)
            \<longrightarrow> n = len' \<and> out = reply')"
proof (intro conjI)
  show "prefix ''PING'' cmd \<and> wifi_send_command st tr cmd reply reply_len = Inr (0, st', out, n)
        \<longrightarrow> n = len' \<and> len' < length reply' \<and> out = reply'[len' := NUL] \<and> out ! n = NUL"
  proof
    assume a: "prefix ''PING'' cmd \<and> wifi_send_command st tr cmd reply reply_len = Inr (0, st', out, n)"
    then have p: "strncmp_eq (cmd @ [NUL]) 0 ''PING'' = Inr True"
      by (simp only: strncmp_eq_PING)
    from a assms p have "n = len' \<and> len' < length reply' \<and> out = reply'[len' := NUL]"
      by (auto simp: wifi_send_command_def Let_def simp del: strncmp_eq.simps
          split: if_splits sum.splits bool.splits)
    then show "n = len' \<and> len' < length reply' \<and> out = reply'[len' := NUL] \<and> out ! n = NUL"
      by simp
  qed
next
  show "prefix ''PING'' cmd \<and> 0 \<le> ret \<and> 4 \<le> length reply' \<and> \<not> prefix ''FAIL'' reply'
            \<and> length reply' \<le> len'
            \<longrightarrow> wifi_send_command st tr cmd reply reply_len = Inl OutOfBounds"
  proof
    assume a: "prefix ''PING'' cmd \<and> 0 \<le> ret \<and> 4 \<le> length reply' \<and> \<not> prefix ''FAIL'' reply'
              \<and> length reply' \<le> len'"
    then have "strncmp_eq reply' 0 ''FAIL'' = Inr False"
      "strncmp_eq (cmd @ [NUL]) 0 ''PING'' = Inr True"
      by (simp_all only: strncmp_eq_FAIL strncmp_eq_PING)
    with a assms show "wifi_send_command st tr cmd reply reply_len = Inl OutOfBounds"
      by (simp add: wifi_send_command_def)
  qed
next
  show "\<not> prefix ''PING'' cmd \<and> wifi_send_command st tr cmd reply reply_len = Inr (0, st', out, n)
            \<longrightarrow> n = len' \<and> out = reply'"
  proof
    assume a: "\<not> prefix ''PING'' cmd \<and> wifi_send_command st tr cmd reply reply_len = Inr (0, st', out, n)"
    then have p: "strncmp_eq (cmd @ [NUL]) 0 ''PING'' = Inr False"
      by (simp only: strncmp_eq_PING)
    from a assms p show "n = len' \<and> out = reply'"
      by (auto simp: wifi_send_command_def Let_def simp del: strncmp_eq.simps
          split: if_splits sum.splits bool.splits)
  qed
qed

theorem ping_terminator_index_witness:
  "(4 :: nat) < length ''PONG????''
   \<and> (''PONG????''[4 := NUL]) ! 4 = NUL
   \<and> wifi_send_command connected_state (answering_request ''PONG'') ''PING'' ''????'' 4
     = Inl OutOfBounds
   \<and> wifi_send_command connected_state (answering_request ''OK'') ''SCAN'' ''????????'' 8
     = Inr (0, connected_state\<lparr>calls := [WpaCtrlRequest 1 ''SCAN'']\<rparr>, ''OK??????'', 2)"
proof -
  have e1: "wifi_send_command connected_state (answering_request ''PONG'') ''PING'' ''????????'' 8
     = Inr (0, connected_state\<lparr>calls := [WpaCtrlRequest 1 ''PING'']\<rparr>,
            ''PONG????''[4 := NUL], 4)"
    by code_simp
  have 1: "(4 :: nat) < length ''PONG????'' \<and> (''PONG????''[4 := NUL]) ! 4 = NUL"
    using ping_terminator_index [where st = connected_state and tr = "answering_request ''PONG''"
      and cmd = "''PING''" and reply = "''????????''" and reply_len = 8 and c = 1
      and ret = 0 and reply' = "''PONG????''" and len' = 4
      and st' = "connected_state\<lparr>calls := [WpaCtrlRequest 1 ''PING'']\<rparr>"
      and out = "''PONG????''[4 := NUL]" and n = 4] e1
    by (simp add: connected_state_def answering_request_def)
  have 2: "wifi_send_command connected_state (answering_request ''PONG'') ''PING'' ''????'' 4
     = Inl OutOfBounds"
    using ping_terminator_index [where st = connected_state and tr = "answering_request ''PONG''"
      and cmd = "''PING''" and reply = "''????''" and reply_len = 4 and c = 1
      and ret = 0 and reply' = "''PONG''" and len' = 4]
    by (simp add: connected_state_def answering_request_def)
  have e3: "wifi_send_command connected_state (answering_request ''OK'') ''SCAN'' ''????????'' 8
     = Inr (0, connected_state\<lparr>calls := [WpaCtrlRequest 1 ''SCAN'']\<rparr>, ''OK??????'', 2)"
    by code_simp
  from 1 2 e3 show ?thesis by (intro conjI) simp_all
qed


section \<open>Properties of waiting for an event\<close>

lemma snprintf_fits:
  "length s < length buf \<Longrightarrow> snprintf buf s = (s @ NUL # drop (Suc (length s)) buf, length s)"
  by (auto simp: snprintf_def Let_def min_def)

lemma poll_rounds_quiet:
  "\<forall>j<k. poll_res (poll env (t + j)) = 0 \<and> supp_status env (t + j) \<noteq> ''stopped''
   \<Longrightarrow> poll_rounds env t = poll_rounds env (t + k)"
proof (induction k arbitrary: t)
  case 0
  then show ?case by simp
next
  case (Suc k)
  from Suc.prems have now: "poll_res (poll env t) = 0" "supp_status env t \<noteq> ''stopped''"
    by (metis add.right_neutral zero_less_Suc)+
  have "\<forall>j<k. poll_res (poll env (Suc t + j)) = 0 \<and> supp_status env (Suc t + j) \<noteq> ''stopped''"
    using Suc.prems by (metis Suc_less_eq add_Suc_shift)
  then have "poll_rounds env (Suc t) = poll_rounds env (Suc t + k)"
    by (rule Suc.IH)
  with now show ?case
    by (subst poll_rounds.simps) (simp add: wifi_supplicant_connection_active_def)
qed

lemma poll_rounds_ready:
  "0 < poll_res (poll env k) \<Longrightarrow> poll_rounds env k = Some (Inr k)"
  by (subst poll_rounds.simps) simp

lemma poll_rounds_stopped:
  "poll_res (poll env k) = 0 \<Longrightarrow> supp_status env k = ''stopped''
   \<Longrightarrow> poll_rounds env k = Some (Inl (- 2))"
  by (subst poll_rounds.simps) (simp add: wifi_supplicant_connection_active_def)

lemma wait_not_connected:
  "monitor_conn st = None \<Longrightarrow>
   wifi_wait_on_socket st env buf
   = Some (st, Inr (snprintf buf (terminal_event (primary_iface st) ''connection closed'')))"
  by (simp add: wifi_wait_on_socket_def terminal_event_def)

lemma wait_after_recv:
  assumes "monitor_conn st \<noteq> None"
    and "wifi_ctrl_recv env buf (size_sub (length buf) 1) = Some (r, buf', n)"
  shows "wifi_wait_on_socket st env buf =
     (if r = - 2
      then Some (st, Inr (snprintf buf' (terminal_event (primary_iface st) ''connection closed'')))
      else if r < 0
      then Some (st, Inr (snprintf buf' (terminal_event (primary_iface st) ''recv error'')))
      else if length buf' \<le> n then Some (st, Inl OutOfBounds)
      else if r = 0 \<and> n = 0
      then Some (st, Inr (snprintf (buf'[n := NUL])
                  (terminal_event (primary_iface st) ''signal 0 received'')))
      else Some (st, normalize_event (buf'[n := NUL]) n))"
  using assms by (auto simp: wifi_wait_on_socket_def terminal_event_def)

lemma ctrl_recv_round:
  assumes "\<forall>j<k. poll_res (poll env j) = 0 \<and> supp_status env j \<noteq> ''stopped''"
  shows "wifi_ctrl_recv env buf n =
     (case poll_rounds env k of
        None \<Rightarrow> None
      | Some (Inl r) \<Rightarrow> Some (r, buf, n)
      | Some (Inr k') \<Rightarrow>
          if revents0_in (poll env k') then Some (wpa_ctrl_recv env buf n)
          else Some (- 2, buf, n))"
  using poll_rounds_quiet [of k env 0] assms by (simp add: wifi_ctrl_recv_def)

text \<open>
  Claim C9, as the code has it: after any number of quiet rounds, a round in which the exit
  socket is readable and the event connection is not ends the wait with the synthetic
  \<open>connection closed\<close> event, and the state is handed back as it was: handles, descriptors
  and the byte waiting on the exit socket, which is not read.
\<close>

theorem wait_cancelled:
  assumes "monitor_conn st \<noteq> None"
    and "\<forall>j<k. poll_res (poll env j) = 0 \<and> supp_status env j \<noteq> ''stopped''"
    and "0 < poll_res (poll env k)" "\<not> revents0_in (poll env k)" "revents1_in (poll env k)"
  shows "wifi_wait_on_socket st env buf
         = Some (st, Inr (snprintf buf
                   (terminal_event (primary_iface st) ''connection closed'')))"
proof -
  have "wifi_ctrl_recv env buf (size_sub (length buf) 1)
        = Some (- 2, buf, size_sub (length buf) 1)"
    using ctrl_recv_round [OF assms(2)] poll_rounds_ready [OF assms(3)] assms(4) by simp
  with assms(1) show ?thesis
    by (simp add: wait_after_recv)
qed

theorem wait_cancelled_witness:
  "wifi_wait_on_socket signalled_state (cancel_env 2 ''running'') (replicate 64 NUL)
   = Some (signalled_state,
           Inr (snprintf (replicate 64 NUL)
                  (terminal_event (primary_iface signalled_state) ''connection closed'')))"
  using wait_cancelled [where st = signalled_state and k = 2
      and env = "cancel_env 2 ''running''" and buf = "replicate 64 NUL"]
  by (simp add: signalled_state_def connected_state_def cancel_env_def)

text \<open>
  The claim as stated fails: the byte a timed-out command wrote is still unread after the
  wait has returned.
\<close>

theorem wait_leaves_signal_unread:
  "wifi_send_command connected_state timeout_request ''SCAN'' ''????????'' 8
     = Inr (- 2, signalled_state, ''????????'', 8)
   \<and> map_option (exit_unread \<circ> fst)
        (wifi_wait_on_socket signalled_state (cancel_env 0 ''running'') (replicate 64 NUL))
     = Some ''T''"
  by code_simp

text \<open>
  Claim C6, as the code has it: without an event connection, on -2 from the receive
  (cancellation, or a timeout that finds the daemon stopped), on any other negative result
  and on a receive of zero bytes, the wait formats \<open>IFNAME={interface} {marker} - {reason}\<close>
  with the reason \<open>connection closed\<close>, \<open>connection closed\<close>, \<open>recv error\<close> and
  \<open>signal 0 received\<close>. The marker ends in a space, so two spaces precede the dash. A
  buffer longer than the text holds the text and its terminator, and the value returned
  is the length of the text.
\<close>

theorem terminal_events:
  "(monitor_conn st = None \<longrightarrow>
      wifi_wait_on_socket st env buf
      = Some (st, Inr (snprintf buf (terminal_event (primary_iface st) ''connection closed''))))
   \<and> (monitor_conn st \<noteq> None
        \<and> wifi_ctrl_recv env buf (size_sub (length buf) 1) = Some (r, buf', n) \<longrightarrow>
        (r = - 2 \<longrightarrow>
           wifi_wait_on_socket st env buf
           = Some (st, Inr (snprintf buf'
                     (terminal_event (primary_iface st) ''connection closed''))))
      \<and> (r < 0 \<and> r \<noteq> - 2 \<longrightarrow>
           wifi_wait_on_socket st env buf
           = Some (st, Inr (snprintf buf' (terminal_event (primary_iface st) ''recv error''))))
      \<and> (r = 0 \<and> n = 0 \<and> buf' \<noteq> [] \<longrightarrow>
           wifi_wait_on_socket st env buf
           = Some (st, Inr (snprintf (buf'[0 := NUL])
                     (terminal_event (primary_iface st) ''signal 0 received'')))))
   \<and> ((\<forall>j<k. poll_res (poll env j) = 0 \<and> supp_status env j \<noteq> ''stopped'')
        \<and> poll_res (poll env k) = 0 \<and> supp_status env k = ''stopped'' \<longrightarrow>
        wifi_ctrl_recv env buf m = Some (- 2, buf, m))
   \<and> (length (terminal_event iface reason) < length b \<longrightarrow>
        snprintf b (terminal_event iface reason)
        = (terminal_event iface reason @ NUL # drop (Suc (length (terminal_event iface reason))) b,
           length (terminal_event iface reason)))
   \<and> terminal_event ''wlan0'' ''connection closed''
       = ''IFNAME=wlan0 CTRL-EVENT-TERMINATING  - connection closed''
   \<and> (primary_iface st = ''wlan0'' \<and> 56 < length buf \<longrightarrow>
        wifi_wait_on_socket (wifi_close_sockets st) env buf
        = Some (wifi_close_sockets st,
                Inr (''IFNAME=wlan0 CTRL-EVENT-TERMINATING  - connection closed''
                       @ NUL # drop 57 buf, 56)))"
proof (intro conjI impI)
  assume "monitor_conn st = None"
  then show "wifi_wait_on_socket st env buf
      = Some (st, Inr (snprintf buf (terminal_event (primary_iface st) ''connection closed'')))"
    by (rule wait_not_connected)
next
  assume "monitor_conn st \<noteq> None
        \<and> wifi_ctrl_recv env buf (size_sub (length buf) 1) = Some (r, buf', n)" "r = - 2"
  then show "wifi_wait_on_socket st env buf
           = Some (st, Inr (snprintf buf'
                     (terminal_event (primary_iface st) ''connection closed'')))"
    by (simp add: wait_after_recv)
next
  assume "monitor_conn st \<noteq> None
        \<and> wifi_ctrl_recv env buf (size_sub (length buf) 1) = Some (r, buf', n)"
    "r < 0 \<and> r \<noteq> - 2"
  then show "wifi_wait_on_socket st env buf
           = Some (st, Inr (snprintf buf' (terminal_event (primary_iface st) ''recv error'')))"
    by (simp add: wait_after_recv)
next
  assume "monitor_conn st \<noteq> None
        \<and> wifi_ctrl_recv env buf (size_sub (length buf) 1) = Some (r, buf', n)"
    "r = 0 \<and> n = 0 \<and> buf' \<noteq> []"
  then show "wifi_wait_on_socket st env buf
           = Some (st, Inr (snprintf (buf'[0 := NUL])
                     (terminal_event (primary_iface st) ''signal 0 received'')))"
    by (simp add: wait_after_recv)
next
  assume a: "(\<forall>j<k. poll_res (poll env j) = 0 \<and> supp_status env j \<noteq> ''stopped'')
        \<and> poll_res (poll env k) = 0 \<and> supp_status env k = ''stopped''"
  then have "poll_rounds env k = Some (Inl (- 2))"
    by (simp add: poll_rounds_stopped)
  with a show "wifi_ctrl_recv env buf m = Some (- 2, buf, m)"
    using ctrl_recv_round [of k env buf m] by simp
next
  assume "length (terminal_event iface reason) < length b"
  then show "snprintf b (terminal_event iface reason)
        = (terminal_event iface reason @ NUL # drop (Suc (length (terminal_event iface reason))) b,
           length (terminal_event iface reason))"
    by (rule snprintf_fits)
next
  show e: "terminal_event ''wlan0'' ''connection closed''
       = ''IFNAME=wlan0 CTRL-EVENT-TERMINATING  - connection closed''"
    by (simp add: terminal_event_def WPA_EVENT_TERMINATING_def)
next
  assume a: "primary_iface st = ''wlan0'' \<and> 56 < length buf"
  have "wifi_wait_on_socket (wifi_close_sockets st) env buf
        = Some (wifi_close_sockets st,
                Inr (snprintf buf ''IFNAME=wlan0 CTRL-EVENT-TERMINATING  - connection closed''))"
    using a by (simp add: wifi_wait_on_socket_def wifi_close_sockets_def WPA_EVENT_TERMINATING_def)
  moreover have "snprintf buf ''IFNAME=wlan0 CTRL-EVENT-TERMINATING  - connection closed''
        = (''IFNAME=wlan0 CTRL-EVENT-TERMINATING  - connection closed'' @ NUL # drop 57 buf, 56)"
  proof -
    have len: "length ''IFNAME=wlan0 CTRL-EVENT-TERMINATING  - connection closed'' = 56"
      by simp
    show ?thesis
      using a snprintf_fits [of "''IFNAME=wlan0 CTRL-EVENT-TERMINATING  - connection closed''" buf]
      unfolding len by simp
  qed
  ultimately show "wifi_wait_on_socket (wifi_close_sockets st) env buf
        = Some (wifi_close_sockets st,
                Inr (''IFNAME=wlan0 CTRL-EVENT-TERMINATING  - connection closed''
                       @ NUL # drop 57 buf, 56))"
    by simp
qed

theorem terminal_events_witness:
  "wifi_wait_on_socket idle_state (event_env []) (replicate 64 NUL)
     = Some (idle_state, Inr (snprintf (replicate 64 NUL)
               (terminal_event (primary_iface idle_state) ''connection closed'')))
   \<and> wifi_wait_on_socket connected_state (cancel_env 1 ''stopped'') (replicate 64 NUL)
     = Some (connected_state, Inr (snprintf (replicate 64 NUL)
               (terminal_event (primary_iface connected_state) ''connection closed'')))
   \<and> wifi_wait_on_socket connected_state (recv_result_env True (- 1)) (replicate 64 NUL)
     = Some (connected_state, Inr (snprintf (replicate 64 NUL)
               (terminal_event (primary_iface connected_state) ''recv error'')))
   \<and> wifi_wait_on_socket connected_state (recv_result_env True 0) (replicate 64 NUL)
     = Some (connected_state, Inr (snprintf ((replicate 64 NUL)[0 := NUL])
               (terminal_event (primary_iface connected_state) ''signal 0 received'')))
   \<and> wifi_ctrl_recv (cancel_env 1 ''stopped'') (replicate 64 NUL) 63
     = Some (- 2, replicate 64 NUL, 63)
   \<and> snprintf (replicate 64 NUL) (terminal_event ''wlan0'' ''recv error'')
     = (terminal_event ''wlan0'' ''recv error''
          @ NUL # drop (Suc (length (terminal_event ''wlan0'' ''recv error''))) (replicate 64 NUL),
        length (terminal_event ''wlan0'' ''recv error''))
   \<and> wifi_wait_on_socket (wifi_close_sockets connected_state) (event_env []) (replicate 64 NUL)
     = Some (wifi_close_sockets connected_state,
             Inr (''IFNAME=wlan0 CTRL-EVENT-TERMINATING  - connection closed''
                    @ NUL # drop 57 (replicate 64 NUL), 56))"
proof -
  let ?b = "replicate 64 NUL"
  have 1: "wifi_wait_on_socket idle_state (event_env []) ?b
     = Some (idle_state, Inr (snprintf ?b
               (terminal_event (primary_iface idle_state) ''connection closed'')))"
    using terminal_events [where st = idle_state and env = "event_env []" and buf = ?b]
    by (simp add: idle_state_def)
  have c: "monitor_conn connected_state \<noteq> None" "primary_iface connected_state = ''wlan0''"
    by (simp_all add: connected_state_def)
  have h2: "wifi_ctrl_recv (cancel_env 1 ''stopped'') ?b (size_sub (length ?b) 1)
            = Some (- 2, ?b, 63)"
    by code_simp
  have 2: "wifi_wait_on_socket connected_state (cancel_env 1 ''stopped'') ?b
     = Some (connected_state, Inr (snprintf ?b
               (terminal_event (primary_iface connected_state) ''connection closed'')))"
    using terminal_events [where st = connected_state and env = "cancel_env 1 ''stopped''"
        and buf = ?b and r = "- 2" and buf' = ?b and n = 63] c h2
    by simp
  have h3: "wifi_ctrl_recv (recv_result_env True (- 1)) ?b (size_sub (length ?b) 1)
            = Some (- 1, ?b, 63)"
    by code_simp
  have 3: "wifi_wait_on_socket connected_state (recv_result_env True (- 1)) ?b
     = Some (connected_state, Inr (snprintf ?b
               (terminal_event (primary_iface connected_state) ''recv error'')))"
    using terminal_events [where st = connected_state and env = "recv_result_env True (- 1)"
        and buf = ?b and r = "- 1" and buf' = ?b and n = 63] c h3
    by simp
  have h4: "wifi_ctrl_recv (recv_result_env True 0) ?b (size_sub (length ?b) 1)
            = Some (0, ?b, 0)"
    by code_simp
  have 4: "wifi_wait_on_socket connected_state (recv_result_env True 0) ?b
     = Some (connected_state, Inr (snprintf (?b[0 := NUL])
               (terminal_event (primary_iface connected_state) ''signal 0 received'')))"
    using terminal_events [where st = connected_state and env = "recv_result_env True 0"
        and buf = ?b and r = 0 and buf' = ?b and n = 0] c h4
    by simp
  have 5: "wifi_ctrl_recv (cancel_env 1 ''stopped'') ?b 63 = Some (- 2, ?b, 63)"
    using terminal_events [where env = "cancel_env 1 ''stopped''" and k = 0 and buf = ?b
        and m = 63]
    by (simp add: cancel_env_def)
  have 6: "snprintf ?b (terminal_event ''wlan0'' ''recv error'')
     = (terminal_event ''wlan0'' ''recv error''
          @ NUL # drop (Suc (length (terminal_event ''wlan0'' ''recv error''))) ?b,
        length (terminal_event ''wlan0'' ''recv error''))"
    using terminal_events [where iface = "''wlan0''" and reason = "''recv error''" and b = ?b]
    by (simp add: terminal_event_def WPA_EVENT_TERMINATING_def)
  have 7: "wifi_wait_on_socket (wifi_close_sockets connected_state) (event_env []) ?b
     = Some (wifi_close_sockets connected_state,
             Inr (''IFNAME=wlan0 CTRL-EVENT-TERMINATING  - connection closed''
                    @ NUL # drop 57 ?b, 56))"
    using terminal_events [where st = connected_state and env = "event_env []" and buf = ?b] c
    by simp
  from 1 2 3 4 5 6 7 show ?thesis by (intro conjI)
qed

text \<open>
  The claim as stated fails: after a disconnect the event for \<open>wlan0\<close> has two spaces
  before the dash, and is not the string with one.
\<close>

theorem terminal_event_two_spaces:
  "wifi_wait_on_socket (wifi_close_sockets connected_state) (event_env []) (replicate 64 NUL)
     = Some (wifi_close_sockets connected_state,
             Inr (''IFNAME=wlan0 CTRL-EVENT-TERMINATING  - connection closed'' @ replicate 8 NUL,
                  56))
   \<and> ''IFNAME=wlan0 CTRL-EVENT-TERMINATING  - connection closed''
       \<noteq> ''IFNAME=wlan0 CTRL-EVENT-TERMINATING - connection closed''"
  by code_simp

end
